theory Spec2Isabelle
  imports Main "HOL-Library.Signed_Division"
begin

section \<open>Values and keys\<close>

text \<open>
  The handlers of \<^verbatim>\<open>mapping.ts\<close> (the variant that keeps the history lists, file
  \<^verbatim>\<open>src/unnamed/part_000\<close>) work on graph-ts values: \<^verbatim>\<open>BigInt\<close> is an unbounded
  integer, modelled as \<open>int\<close>; an address or a transaction hash is used only through
  its hex string, modelled as \<open>string\<close>; every entity is stored under a string key.
  \<^verbatim>\<open>BigInt.toString()\<close> prints the decimal digits, with a leading minus sign for a
  negative number.
\<close>

definition digit_char :: "nat \<Rightarrow> char" where
  "digit_char d = char_of (48 + d)"

fun digits :: "nat \<Rightarrow> string" where
  "digits n = (if n < 10 then [digit_char n] else digits (n div 10) @ [digit_char (n mod 10)])"

declare digits.simps [simp del]

definition toString :: "int \<Rightarrow> string" where
  "toString i = (if i < 0 then CHR ''-'' # digits (nat (- i)) else digits (nat i))"

text \<open>
  \<^verbatim>\<open>BigInt.div\<close> truncates towards zero and fails on a zero divisor; the handler's
  only division is written out with both.
\<close>

datatype error =
  Critical string  \<comment> \<open>\<^verbatim>\<open>log.critical\<close>: logs and terminates the run\<close>
  | NullReference  \<comment> \<open>a field read or written on \<^verbatim>\<open>null\<close>\<close>
  | IndexOutOfRange  \<comment> \<open>an array read past its length\<close>
  | DivisionByZero

datatype level = Info | Warning

section \<open>Entities\<close>

record Bid =
  b_id :: string
  b_tokenDetails :: string
  bidAmount :: int
  bidder :: string
  bidTimestamp :: int
  bidActive :: bool
  bidAccepted :: bool
  BidWithdrawnTimestamp :: "int option"

record Token =
  t_id :: string
  owner :: string
  currentBuyPrice :: int
  currentBid :: "string option"
  permissionedAddress :: "string option"
  numberOfSales :: int
  tokenDidHaveFirstSale :: bool
  isMaster :: bool
  pastBids :: "string list"
  pastOwners :: "string list"
  allTransfers :: "string list"
  allSales :: "string list"
  lastSale :: "string option"
  lastTransfer :: "string option"

record User =
  u_id :: string
  bids :: "string list"
  buys :: "string list"
  sells :: "string list"
  ownedMasters :: "string list"
  ownerControllers :: "string list"

record Sale =
  s_id :: string
  s_tokenDetails :: string
  buyer :: string
  seller :: string
  salePrice :: int
  saleTimestamp :: int
  tokenSaleNumber :: int
  isBidSale :: bool
  bidDetails :: "string option"

record TokenController =
  c_id :: string
  c_numberOfUpdates :: int
  numRemainingUpdates :: int
  averageUpdateCost :: int
  allUpdates :: "string list"
  lastUpdate :: "string option"

record TokenControlLever =
  l_id :: string
  previousValue :: int
  currentValue :: int
  latestUpdate :: "string option"
  l_numberOfUpdates :: int

record LayerUpdate =
  lu_id :: string
  updateNumber :: int
  lu_gasPrice :: int
  lu_gasUsed :: int
  costInWei :: int
  priorityTip :: int
  layer :: string
  leversUpdated :: "string list"

record TokenTransfer =
  tr_id :: string
  tr_tokenDetails :: string
  tr_to :: string
  tr_from :: string
  tr_timestamp :: int

record GlobalState =
  artistSecondSalePercentage :: int
  platformAddress :: string
  latestMasterTokenId :: int
  currentExpectedTokenSupply :: int
  totalSaleAmount :: int

text \<open>
  The persistent store: one table per entity type, keyed by the entity's id; \<open>load\<close> is
  the table lookup and \<open>save\<close> writes the record under its own id. The log output is
  kept beside the tables. The component \<open>links\<close> holds what the linkage reconciler
  derives; its type is left open.
\<close>

record 'l state =
  tokenStore :: "string \<rightharpoonup> Token"
  bidStore :: "string \<rightharpoonup> Bid"
  userStore :: "string \<rightharpoonup> User"
  saleStore :: "string \<rightharpoonup> Sale"
  controllerStore :: "string \<rightharpoonup> TokenController"
  leverStore :: "string \<rightharpoonup> TokenControlLever"
  layerUpdateStore :: "string \<rightharpoonup> LayerUpdate"
  transferStore :: "string \<rightharpoonup> TokenTransfer"
  globalStore :: "GlobalState option"
  logs :: "(level \<times> string) list"
  links :: 'l

text \<open>The transaction and block fields every event carries.\<close>

record txmeta =
  timestamp :: int
  blockNumber :: int
  txHash :: string
  gasPrice :: int
  gasUsed :: int

text \<open>
  What the handlers ask of the contract and of the module \<^verbatim>\<open>./util\<close>, whose source is
  not part of the repository's files: the contract's answers are parameters, and so is
  what the two reconciliation routines compute.
\<close>

record 'l env =
  contractArtistSecondSalePercentage :: int
  contractPlatformAddress :: string
  contractPermissionedAddress :: "int \<Rightarrow> string \<Rightarrow> string option"
  contractLeverIds :: "int \<Rightarrow> int list"
  contractOwnerOf :: "int \<Rightarrow> string"
  masterLayers :: "'l state \<Rightarrow> 'l"
  masterControllerLinks :: "'l state \<Rightarrow> 'l"

definition logMsg :: "level \<Rightarrow> string \<Rightarrow> 'l state \<Rightarrow> 'l state" where
  "logMsg lv msg s = s\<lparr>logs := logs s @ [(lv, msg)]\<rparr>"

definition loadBid :: "'l state \<Rightarrow> string option \<Rightarrow> Bid option" where
  \<comment> \<open>\<^verbatim>\<open>Bid.load(token.currentBid)\<close>: a null id loads nothing\<close>
  "loadBid s k = (case k of None \<Rightarrow> None | Some i \<Rightarrow> bidStore s i)"

definition saveBid :: "Bid \<Rightarrow> 'l state \<Rightarrow> 'l state" where
  "saveBid b s = s\<lparr>bidStore := (bidStore s)(b_id b \<mapsto> b)\<rparr>"

definition saveToken :: "Token \<Rightarrow> 'l state \<Rightarrow> 'l state" where
  "saveToken t s = s\<lparr>tokenStore := (tokenStore s)(t_id t \<mapsto> t)\<rparr>"

definition saveUser :: "User \<Rightarrow> 'l state \<Rightarrow> 'l state" where
  "saveUser u s = s\<lparr>userStore := (userStore s)(u_id u \<mapsto> u)\<rparr>"

definition saveSale :: "Sale \<Rightarrow> 'l state \<Rightarrow> 'l state" where
  "saveSale x s = s\<lparr>saleStore := (saleStore s)(s_id x \<mapsto> x)\<rparr>"

definition saveController :: "TokenController \<Rightarrow> 'l state \<Rightarrow> 'l state" where
  "saveController c s = s\<lparr>controllerStore := (controllerStore s)(c_id c \<mapsto> c)\<rparr>"

definition saveLever :: "TokenControlLever \<Rightarrow> 'l state \<Rightarrow> 'l state" where
  "saveLever l s = s\<lparr>leverStore := (leverStore s)(l_id l \<mapsto> l)\<rparr>"

definition saveLayerUpdate :: "LayerUpdate \<Rightarrow> 'l state \<Rightarrow> 'l state" where
  "saveLayerUpdate u s = s\<lparr>layerUpdateStore := (layerUpdateStore s)(lu_id u \<mapsto> u)\<rparr>"

definition saveTransfer :: "TokenTransfer \<Rightarrow> 'l state \<Rightarrow> 'l state" where
  "saveTransfer x s = s\<lparr>transferStore := (transferStore s)(tr_id x \<mapsto> x)\<rparr>"

definition saveGlobalState :: "GlobalState \<Rightarrow> 'l state \<Rightarrow> 'l state" where
  "saveGlobalState g s = s\<lparr>globalStore := Some g\<rparr>"

section \<open>The helpers of \<^verbatim>\<open>./util\<close>\<close>

definition getOrInitialiseGlobalState :: "'l env \<Rightarrow> 'l state \<Rightarrow> GlobalState" where
  \<comment> \<open>Modelled from the spec: \<^verbatim>\<open>getOrInitialiseGlobalState\<close> of \<^verbatim>\<open>./util\<close> is missing;
      the spec's \<^verbatim>\<open>getOrInit()\<close> returns the singleton, made from the contract's
      percentage and platform address when absent. The counters start at zero.\<close>
  "getOrInitialiseGlobalState env s =
     (case globalStore s of
        Some g \<Rightarrow> g
      | None \<Rightarrow>
          \<lparr>artistSecondSalePercentage = contractArtistSecondSalePercentage env,
           platformAddress = contractPlatformAddress env,
           latestMasterTokenId = 0,
           currentExpectedTokenSupply = 0,
           totalSaleAmount = 0\<rparr>)"

definition refreshGlobalState :: "'l env \<Rightarrow> 'l state \<Rightarrow> 'l state" where
  \<comment> \<open>Modelled from the spec: \<^verbatim>\<open>refreshGlobalState\<close> of \<^verbatim>\<open>./util\<close> is missing; the
      spec's \<^verbatim>\<open>refresh()\<close> pulls the same fields again and persists.\<close>
  "refreshGlobalState env s =
     saveGlobalState
       ((getOrInitialiseGlobalState env s)
          \<lparr>artistSecondSalePercentage := contractArtistSecondSalePercentage env,
           platformAddress := contractPlatformAddress env\<rparr>) s"

definition getOrInitialiseToken :: "'l state \<Rightarrow> int \<Rightarrow> Token option" where
  \<comment> \<open>Modelled from the spec: \<^verbatim>\<open>getOrInitialiseToken\<close> of \<^verbatim>\<open>./util\<close> is missing; the
      spec's \<^verbatim>\<open>getOrInit(id)\<close> loads an existing Token and has nothing to return when
      none is stored, which the handlers test as \<^verbatim>\<open>token == null\<close>.\<close>
  "getOrInitialiseToken s tokenId = tokenStore s (toString tokenId)"

definition createOrFetchUserString :: "'l state \<Rightarrow> string \<Rightarrow> User \<times> 'l state" where
  \<comment> \<open>Modelled from the spec: \<^verbatim>\<open>createOrFetchUserString\<close> of \<^verbatim>\<open>./util\<close> is missing; the
      spec's \<^verbatim>\<open>resolve(address)\<close> returns the stored User, or creates one with empty
      lists and persists it before returning.\<close>
  "createOrFetchUserString s a =
     (case userStore s a of
        Some u \<Rightarrow> (u, s)
      | None \<Rightarrow>
          (let u = \<lparr>u_id = a, bids = [], buys = [], sells = [],
                    ownedMasters = [], ownerControllers = []\<rparr>
           in (u, saveUser u s)))"

definition getPermissionedAddress :: "'l env \<Rightarrow> int \<Rightarrow> string \<Rightarrow> string option" where
  \<comment> \<open>Modelled from the spec: \<^verbatim>\<open>getPermissionedAddress\<close> of \<^verbatim>\<open>./util\<close> is missing; the
      spec's \<^verbatim>\<open>queryCurrentPermission(tokenId, actorAddress)\<close> asks the contract.\<close>
  "getPermissionedAddress env tokenId a = contractPermissionedAddress env tokenId a"

definition trySetMasterLayers :: "'l env \<Rightarrow> 'l state \<Rightarrow> 'l state" where
  \<comment> \<open>Modelled from the spec: \<^verbatim>\<open>trySetMasterLayers\<close> of \<^verbatim>\<open>./util\<close> is missing; the spec's
      reconciler recomputes derived relationships, kept here in \<open>links\<close>. What it
      computes is the parameter \<open>masterLayers\<close>.\<close>
  "trySetMasterLayers env s = s\<lparr>links := masterLayers env s\<rparr>"

definition linkMasterAndControllers :: "'l env \<Rightarrow> 'l state \<Rightarrow> 'l state" where
  \<comment> \<open>Modelled from the spec: \<^verbatim>\<open>linkMasterAndControllers\<close> of \<^verbatim>\<open>./util\<close> is missing; as
      for \<open>trySetMasterLayers\<close>, with the parameter \<open>masterControllerLinks\<close>.\<close>
  "linkMasterAndControllers env s = s\<lparr>links := masterControllerLinks env s\<rparr>"

definition newToken :: "'l env \<Rightarrow> int \<Rightarrow> bool \<Rightarrow> Token" where
  "newToken env i m =
     \<lparr>t_id = toString i, owner = contractOwnerOf env i, currentBuyPrice = 0,
      currentBid = None, permissionedAddress = None, numberOfSales = 0,
      tokenDidHaveFirstSale = False, isMaster = m, pastBids = [], pastOwners = [],
      allTransfers = [], allSales = [], lastSale = None, lastTransfer = None\<rparr>"

definition newController :: "int \<Rightarrow> TokenController" where
  "newController i =
     \<lparr>c_id = toString i @ ''-Controller'', c_numberOfUpdates = 0, numRemainingUpdates = 0,
      averageUpdateCost = 0, allUpdates = [], lastUpdate = None\<rparr>"

definition newLever :: "int \<Rightarrow> int \<Rightarrow> TokenControlLever" where
  "newLever i l =
     \<lparr>l_id = toString i @ ''-'' @ toString l, previousValue = 0, currentValue = 0,
      latestUpdate = None, l_numberOfUpdates = 0\<rparr>"

definition createChild :: "'l env \<Rightarrow> int \<Rightarrow> 'l state \<Rightarrow> 'l state" where
  "createChild env i s =
     fold (\<lambda>l. saveLever (newLever i l)) (contractLeverIds env i)
       (saveController (newController i) (saveToken (newToken env i False) s))"

definition createTokensFromMasterTokenId :: "'l env \<Rightarrow> int \<Rightarrow> int \<Rightarrow> 'l state \<Rightarrow> 'l state" where
  \<comment> \<open>Modelled from the spec: \<^verbatim>\<open>createTokensFromMasterTokenId\<close> of \<^verbatim>\<open>./util\<close> is
      missing; the spec's creation contract makes one master Token and N child Tokens
      with the ids that follow the master's, and for each child one TokenController and
      its fixed set of TokenControlLever records (the set is the contract's). A new
      record starts with zero counters and empty lists.\<close>
  "createTokensFromMasterTokenId env tokenId layerCount s =
     fold (createChild env) [tokenId + 1 .. tokenId + layerCount]
       (saveToken (newToken env tokenId True) s)"

section \<open>The event handlers\<close>

text \<open>
  Each handler follows its source in \<^verbatim>\<open>src/unnamed/part_000\<close> statement by statement: the
  loads in their order, one binding per changed object, the writes in the order of the
  \<^verbatim>\<open>save()\<close> calls. \<^verbatim>\<open>log.critical\<close> ends the handler with \<open>Critical\<close>, a field access
  on \<^verbatim>\<open>null\<close> with \<open>NullReference\<close>; \<^verbatim>\<open>log.warning\<close> and \<^verbatim>\<open>log.info\<close> add a line to
  \<open>logs\<close>. The older variant \<^verbatim>\<open>src/src/mapping.ts\<close> has the same handlers without the
  history lists and the running average, and an empty \<^verbatim>\<open>handleTransfer\<close>; it is not
  modelled.
\<close>

definition handleBidProposed ::
  "'l env \<Rightarrow> txmeta \<Rightarrow> int \<Rightarrow> int \<Rightarrow> string \<Rightarrow> 'l state \<Rightarrow> error + 'l state" where
  "handleBidProposed env tx tokenId bidAmount' bidder' s =
     (let s1 = saveGlobalState (getOrInitialiseGlobalState env s) s;
          token = getOrInitialiseToken s1 tokenId;
          (user, s2) = createOrFetchUserString s1 bidder'
      in case token of
           None \<Rightarrow> Inr (logMsg Warning ''Bid on token that doesn't exist'' s2)
         | Some token \<Rightarrow>
             (let bid = \<lparr>b_id = toString tokenId @ ''-'' @ txHash tx,
                         b_tokenDetails = toString tokenId,
                         bidAmount = bidAmount',
                         bidder = u_id user,
                         bidTimestamp = timestamp tx,
                         bidActive = True,
                         bidAccepted = False,
                         BidWithdrawnTimestamp = None\<rparr>;
                  (token1, s3) =
                    (case loadBid s2 (currentBid token) of
                       None \<Rightarrow> (token, s2)
                     | Some oldBid \<Rightarrow>
                         (token\<lparr>pastBids := pastBids token @ [b_id oldBid]\<rparr>,
                          saveBid (oldBid\<lparr>bidActive := False\<rparr>) s2));
                  user1 = user\<lparr>bids := bids user @ [b_id bid]\<rparr>;
                  token2 = token1\<lparr>currentBid := Some (b_id bid)\<rparr>;
                  s4 = saveBid bid (saveToken token2 (saveUser user1 s3))
              in Inr (linkMasterAndControllers env (trySetMasterLayers env s4))))"

definition handleBidWithdrawn ::
  "'l env \<Rightarrow> txmeta \<Rightarrow> int \<Rightarrow> 'l state \<Rightarrow> error + 'l state" where
  "handleBidWithdrawn env tx tokenId s =
     (let s1 = refreshGlobalState env s
      in case getOrInitialiseToken s1 tokenId of
           None \<Rightarrow> Inl (Critical ''Token should be defined'')
         | Some token \<Rightarrow>
             (case loadBid s1 (currentBid token) of
                None \<Rightarrow> Inr (logMsg Warning ''Bid should be defined'' s1)
              | Some bid \<Rightarrow>
                  (let bid1 = bid\<lparr>bidActive := False,
                                   BidWithdrawnTimestamp := Some (timestamp tx)\<rparr>;
                       token1 = token\<lparr>pastBids := pastBids token @ [b_id bid]\<rparr>
                   in Inr (saveToken token1 (saveBid bid1 s1)))))"

definition handleBuyPriceSet ::
  "'l env \<Rightarrow> txmeta \<Rightarrow> int \<Rightarrow> int \<Rightarrow> 'l state \<Rightarrow> error + 'l state" where
  "handleBuyPriceSet env tx tokenId buyPrice s =
     (let s1 = refreshGlobalState env s
      in case getOrInitialiseToken s1 tokenId of
           None \<Rightarrow> Inr (logMsg Warning ''Token should be defined'' s1)
         | Some token \<Rightarrow>
             Inr (linkMasterAndControllers env (trySetMasterLayers env
                    (saveToken (token\<lparr>currentBuyPrice := buyPrice\<rparr>) s1))))"

fun updateLevers ::
  "int \<Rightarrow> string \<Rightarrow> int list \<Rightarrow> int list \<Rightarrow> int list \<Rightarrow> nat list \<Rightarrow>
   'l state \<times> string list \<Rightarrow> error + 'l state \<times> string list" where
  "updateLevers tokenId u leverIds previousValues updatedValues [] (s, acc) = Inr (s, acc)"
| "updateLevers tokenId u leverIds previousValues updatedValues (i # is) (s, acc) =
     (if length leverIds \<le> i then Inl IndexOutOfRange
      else case leverStore s (toString tokenId @ ''-'' @ toString (leverIds ! i)) of
             None \<Rightarrow> Inl NullReference
           | Some lever \<Rightarrow>
               (if length previousValues \<le> i \<or> length updatedValues \<le> i
                then Inl IndexOutOfRange
                else updateLevers tokenId u leverIds previousValues updatedValues is
                       (saveLever
                          (lever\<lparr>previousValue := previousValues ! i,
                                 currentValue := updatedValues ! i,
                                 latestUpdate := Some u,
                                 l_numberOfUpdates := l_numberOfUpdates lever + 1\<rparr>) s,
                        acc @ [l_id lever])))"

definition handleControlLeverUpdated ::
  "'l env \<Rightarrow> txmeta \<Rightarrow> int \<Rightarrow> int \<Rightarrow> int \<Rightarrow> int list \<Rightarrow> int list \<Rightarrow> int list \<Rightarrow>
   'l state \<Rightarrow> error + 'l state" where
  "handleControlLeverUpdated env tx tokenId priorityTip' numRemainingUpdates' leverIds
     previousValues updatedValues s =
     (let updateCost = gasUsed tx * gasPrice tx;
          s1 = refreshGlobalState env s
      in case getOrInitialiseToken s1 tokenId of
           None \<Rightarrow> Inl (Critical ''Token should be defined'')
         | Some token \<Rightarrow>
             (case controllerStore s1 (toString tokenId @ ''-Controller'') of
                None \<Rightarrow> Inl NullReference
              | Some controllerToken \<Rightarrow>
                  (let newNumberOfUpdates = c_numberOfUpdates controllerToken + 1
                   in if c_numberOfUpdates controllerToken \<noteq> 0 \<and> newNumberOfUpdates = 0
                      then Inl DivisionByZero
                      else
                        (let controller1 = controllerToken
                               \<lparr>averageUpdateCost :=
                                   (if c_numberOfUpdates controllerToken = 0 then updateCost
                                    else (averageUpdateCost controllerToken
                                            * c_numberOfUpdates controllerToken + updateCost)
                                         sdiv newNumberOfUpdates),
                                c_numberOfUpdates := newNumberOfUpdates,
                                numRemainingUpdates := numRemainingUpdates'\<rparr>;
                             layerUpdate =
                               \<lparr>lu_id = toString tokenId @ ''-'' @ toString newNumberOfUpdates,
                                updateNumber = newNumberOfUpdates,
                                lu_gasPrice = gasPrice tx,
                                lu_gasUsed = gasUsed tx,
                                costInWei = updateCost,
                                priorityTip = priorityTip',
                                layer = c_id controllerToken,
                                leversUpdated = []\<rparr>
                         in case updateLevers tokenId (lu_id layerUpdate) leverIds
                                   previousValues updatedValues
                                   [0 ..< length previousValues] (s1, []) of
                              Inl e \<Rightarrow> Inl e
                            | Inr (s2, touched) \<Rightarrow>
                                (let layerUpdate1 = layerUpdate\<lparr>leversUpdated := touched\<rparr>;
                                     controller2 = controller1
                                       \<lparr>allUpdates := allUpdates controller1 @ [lu_id layerUpdate],
                                        lastUpdate := Some (lu_id layerUpdate)\<rparr>
                                 in Inr (saveToken token
                                           (saveController controller2
                                              (saveLayerUpdate layerUpdate1 s2))))))))"

definition handleCreatorWhitelisted ::
  "'l env \<Rightarrow> txmeta \<Rightarrow> int \<Rightarrow> int \<Rightarrow> string \<Rightarrow> 'l state \<Rightarrow> error + 'l state" where
  "handleCreatorWhitelisted env tx tokenId layerCount creator s =
     (let globalState = (getOrInitialiseGlobalState env s)
            \<lparr>latestMasterTokenId := tokenId,
             currentExpectedTokenSupply := tokenId + layerCount + 1\<rparr>
      in Inr (createTokensFromMasterTokenId env tokenId layerCount
                (saveGlobalState globalState s)))"

definition handlePermissionUpdated ::
  "'l env \<Rightarrow> txmeta \<Rightarrow> int \<Rightarrow> string \<Rightarrow> string \<Rightarrow> 'l state \<Rightarrow> error + 'l state" where
  "handlePermissionUpdated env tx tokenId addressOfGranter permissioned s =
     (let s1 = saveGlobalState (getOrInitialiseGlobalState env s) s
      in case getOrInitialiseToken s1 tokenId of
           None \<Rightarrow> Inl (Critical ''Token should be defined'')
         | Some token \<Rightarrow>
             (let s2 = (if addressOfGranter = owner token
                        then saveToken (token\<lparr>permissionedAddress := Some permissioned\<rparr>) s1
                        else s1)
              in Inr (linkMasterAndControllers env (trySetMasterLayers env s2))))"

definition handleTokenSale ::
  "'l env \<Rightarrow> txmeta \<Rightarrow> int \<Rightarrow> int \<Rightarrow> string \<Rightarrow> 'l state \<Rightarrow> error + 'l state" where
  "handleTokenSale env tx tokenId salePrice' buyer' s =
     (let globalState = getOrInitialiseGlobalState env s;
          globalState1 = globalState\<lparr>totalSaleAmount := totalSaleAmount globalState + salePrice'\<rparr>;
          (buyerUser, s1) = createOrFetchUserString s buyer'
      in case getOrInitialiseToken s1 tokenId of
           None \<Rightarrow> Inl NullReference
         | Some token \<Rightarrow>
             (case userStore s1 (owner token) of
                None \<Rightarrow> Inl NullReference
              | Some sellerUser \<Rightarrow>
                  (let tokenSaleNumber' = numberOfSales token + 1;
                       sale = \<lparr>s_id = toString tokenId @ ''-'' @ toString tokenSaleNumber',
                               s_tokenDetails = t_id token,
                               buyer = u_id buyerUser,
                               seller = u_id sellerUser,
                               salePrice = salePrice',
                               saleTimestamp = timestamp tx,
                               tokenSaleNumber = tokenSaleNumber',
                               isBidSale = False,
                               bidDetails = None\<rparr>;
                       (sale1, token1, s2) =
                         (case loadBid s1 (currentBid token) of
                            None \<Rightarrow> (sale, token, logMsg Info ''No bid exists'' s1)
                          | Some bid \<Rightarrow>
                              (let matches = (bidAmount bid = salePrice' \<and> buyer' = bidder bid);
                                   bid1 = (if matches then bid\<lparr>bidAccepted := True\<rparr> else bid);
                                   sale' = (if matches
                                            then sale\<lparr>isBidSale := True,
                                                      bidDetails := Some (b_id bid)\<rparr>
                                            else sale)
                               in (sale',
                                   token\<lparr>pastBids := pastBids token @ [b_id bid]\<rparr>,
                                   saveBid (bid1\<lparr>bidActive := False\<rparr>) s1)));
                       token2 = token1
                         \<lparr>owner := u_id buyerUser,
                          lastSale := Some (s_id sale1),
                          currentBuyPrice := 0,
                          numberOfSales := numberOfSales token1 + 1,
                          tokenDidHaveFirstSale := True,
                          allSales := allSales token1 @ [s_id sale1],
                          currentBid := None,
                          permissionedAddress := getPermissionedAddress env tokenId buyer'\<rparr>;
                       buyer1 = buyerUser\<lparr>buys := buys buyerUser @ [s_id sale1]\<rparr>;
                       seller1 = sellerUser\<lparr>sells := sells sellerUser @ [s_id sale1]\<rparr>;
                       s3 = saveGlobalState globalState1
                              (saveToken token2
                                 (saveSale sale1
                                    (saveUser seller1 (saveUser buyer1 s2))))
                   in Inr (linkMasterAndControllers env (trySetMasterLayers env s3)))))"

definition handleTransfer ::
  "'l env \<Rightarrow> txmeta \<Rightarrow> int \<Rightarrow> string \<Rightarrow> string \<Rightarrow> 'l state \<Rightarrow> error + 'l state" where
  "handleTransfer env tx tokenId from' to' s =
     (let s1 = refreshGlobalState env s;
          (toUser, s2) = createOrFetchUserString s1 to';
          token = getOrInitialiseToken s2 tokenId;
          (fromUser, s3) = createOrFetchUserString s2 from'
      in case token of
           None \<Rightarrow> Inl (Critical ''Token should be defined'')
         | Some token \<Rightarrow>
             (let transfer = \<lparr>tr_id = toString tokenId @ ''-'' @ txHash tx,
                              tr_tokenDetails = t_id token,
                              tr_to = u_id toUser,
                              tr_from = u_id fromUser,
                              tr_timestamp = timestamp tx\<rparr>;
                  token1 = token
                    \<lparr>permissionedAddress := getPermissionedAddress env tokenId to',
                     owner := u_id toUser,
                     currentBuyPrice := 0,
                     lastTransfer := Some (tr_id transfer),
                     allTransfers := allTransfers token @ [tr_id transfer],
                     pastOwners := (if u_id fromUser \<notin> set (pastOwners token)
                                    then pastOwners token @ [u_id fromUser]
                                    else pastOwners token)\<rparr>;
                  toUser1 =
                    (if isMaster token
                     then toUser\<lparr>ownedMasters :=
                            (if t_id token @ ''-Master'' \<notin> set (ownedMasters toUser)
                             then ownedMasters toUser @ [t_id token @ ''-Master'']
                             else ownedMasters toUser)\<rparr>
                     else toUser\<lparr>ownerControllers :=
                            (if t_id token @ ''-Controller'' \<notin> set (ownerControllers toUser)
                             then ownerControllers toUser @ [t_id token @ ''-Controller'']
                             else ownerControllers toUser)\<rparr>);
                  s4 = saveToken token1
                         (saveTransfer transfer
                            (saveUser fromUser (saveUser toUser1 s3)))
              in Inr (linkMasterAndControllers env (trySetMasterLayers env s4))))"

section \<open>Events and runs\<close>

datatype event =
    BidProposed txmeta int int string
  | BidWithdrawn txmeta int
  | BuyPriceSet txmeta int int
  | ControlLeverUpdated txmeta int int int "int list" "int list" "int list"
  | CreatorWhitelisted txmeta int int string
  | PermissionUpdated txmeta int string string
  | TokenSale txmeta int int string
  | Transfer txmeta int string string

fun handleEvent :: "'l env \<Rightarrow> event \<Rightarrow> 'l state \<Rightarrow> error + 'l state" where
  "handleEvent env (BidProposed tx tokenId amount b) s = handleBidProposed env tx tokenId amount b s"
| "handleEvent env (BidWithdrawn tx tokenId) s = handleBidWithdrawn env tx tokenId s"
| "handleEvent env (BuyPriceSet tx tokenId price) s = handleBuyPriceSet env tx tokenId price s"
| "handleEvent env (ControlLeverUpdated tx tokenId tip remaining ids prev upd) s =
     handleControlLeverUpdated env tx tokenId tip remaining ids prev upd s"
| "handleEvent env (CreatorWhitelisted tx tokenId layerCount creator) s =
     handleCreatorWhitelisted env tx tokenId layerCount creator s"
| "handleEvent env (PermissionUpdated tx tokenId granter permissioned) s =
     handlePermissionUpdated env tx tokenId granter permissioned s"
| "handleEvent env (TokenSale tx tokenId price b) s = handleTokenSale env tx tokenId price b s"
| "handleEvent env (Transfer tx tokenId f t) s = handleTransfer env tx tokenId f t s"

text \<open>One event is processed to its end before the next; a failed event stops the run.\<close>

fun processEvents :: "'l env \<Rightarrow> event list \<Rightarrow> 'l state \<Rightarrow> error + 'l state" where
  "processEvents env [] s = Inr s"
| "processEvents env (e # es) s =
     (case handleEvent env e s of Inl x \<Rightarrow> Inl x | Inr s' \<Rightarrow> processEvents env es s')"

section \<open>Notions used in the properties\<close>

text \<open>
  The lever-update events of one token, the cost of one (gas price times gas used of its
  transaction), and the running average as the specification words it: the first cost
  sets the average, every later one gives
  \<open>newAvg = (oldAvg * oldCount + newCost) div (oldCount + 1)\<close>.
\<close>

fun leverUpdateOf :: "int \<Rightarrow> event \<Rightarrow> bool" where
  "leverUpdateOf t (ControlLeverUpdated tx tokenId tip remaining ids prev upd) = (tokenId = t)"
| "leverUpdateOf t _ = False"

fun updateCostOf :: "event \<Rightarrow> int" where
  "updateCostOf (ControlLeverUpdated tx tokenId tip remaining ids prev upd) = gasPrice tx * gasUsed tx"
| "updateCostOf _ = 0"

fun incrementalAverage :: "int \<Rightarrow> int \<Rightarrow> int list \<Rightarrow> int" where
  "incrementalAverage oldAvg oldCount [] = oldAvg"
| "incrementalAverage oldAvg oldCount (newCost # cs) =
     incrementalAverage
       (if oldCount = 0 then newCost else (oldAvg * oldCount + newCost) div (oldCount + 1))
       (oldCount + 1) cs"

definition controllerAfter ::
  "'l env \<Rightarrow> event list \<Rightarrow> 'l state \<Rightarrow> int \<Rightarrow> TokenController option" where
  "controllerAfter env evs s t =
     (case processEvents env evs s of
        Inl _ \<Rightarrow> None
      | Inr s' \<Rightarrow> controllerStore s' (toString t @ ''-Controller''))"

definition tokenAfter :: "'l env \<Rightarrow> event list \<Rightarrow> 'l state \<Rightarrow> string \<Rightarrow> Token option" where
  "tokenAfter env evs s k =
     (case processEvents env evs s of Inl _ \<Rightarrow> None | Inr s' \<Rightarrow> tokenStore s' k)"

definition bidAfter :: "'l env \<Rightarrow> event list \<Rightarrow> 'l state \<Rightarrow> string \<Rightarrow> Bid option" where
  "bidAfter env evs s k =
     (case processEvents env evs s of Inl _ \<Rightarrow> None | Inr s' \<Rightarrow> bidStore s' k)"

text \<open>
  The invariants of the bid state machine: every Bid and Token is stored under its own
  id, and an active Bid is the current bid of the token it names. The active bids of a
  token are the stored Bids that name it and are active. \<open>tokensAgree\<close> relates two
  stores whose tokens differ in no id, current bid or sale count; \<open>proposedBid\<close> is the
  Bid record a proposal creates; a token event is any event but the creation event.
\<close>

definition tokenKeys :: "'l state \<Rightarrow> bool" where
  "tokenKeys s \<longleftrightarrow> (\<forall>k t. tokenStore s k = Some t \<longrightarrow> t_id t = k)"

definition keysConsistent :: "'l state \<Rightarrow> bool" where
  "keysConsistent s \<longleftrightarrow> (\<forall>k b. bidStore s k = Some b \<longrightarrow> b_id b = k) \<and> tokenKeys s"

definition activeBidIsCurrent :: "'l state \<Rightarrow> bool" where
  "activeBidIsCurrent s \<longleftrightarrow>
     (\<forall>k b. bidStore s k = Some b \<and> bidActive b \<longrightarrow>
        (\<exists>t. tokenStore s (b_tokenDetails b) = Some t \<and> currentBid t = Some k))"

definition bidInv :: "'l state \<Rightarrow> bool" where
  "bidInv s \<longleftrightarrow> keysConsistent s \<and> activeBidIsCurrent s"

definition activeBids :: "'l state \<Rightarrow> string \<Rightarrow> string set" where
  "activeBids s tid = {k. \<exists>b. bidStore s k = Some b \<and> b_tokenDetails b = tid \<and> bidActive b}"

definition tokensAgree :: "'l state \<Rightarrow> 'l state \<Rightarrow> bool" where
  "tokensAgree s s' \<longleftrightarrow>
     (\<forall>k. tokenStore s' k = tokenStore s k \<or>
          (\<exists>t t'. tokenStore s k = Some t \<and> tokenStore s' k = Some t' \<and>
                  t_id t' = t_id t \<and> currentBid t' = currentBid t \<and>
                  numberOfSales t' = numberOfSales t))"

definition proposedBid :: "'l state \<Rightarrow> txmeta \<Rightarrow> int \<Rightarrow> int \<Rightarrow> string \<Rightarrow> Bid" where
  "proposedBid s tx tokenId amount b =
     \<lparr>b_id = toString tokenId @ ''-'' @ txHash tx,
      b_tokenDetails = toString tokenId,
      bidAmount = amount,
      bidder = u_id (fst (createOrFetchUserString s b)),
      bidTimestamp = timestamp tx,
      bidActive = True,
      bidAccepted = False,
      BidWithdrawnTimestamp = None\<rparr>"

fun tokenEvent :: "event \<Rightarrow> bool" where
  "tokenEvent (CreatorWhitelisted tx tokenId layerCount creator) = False"
| "tokenEvent _ = True"

text \<open>
  Sale numbering: the key of a token's \<open>n\<close>-th Sale, the keys of the stored Sales that
  name a token, and the invariant that the Sales naming a stored token are exactly those
  numbered \<open>1..numberOfSales\<close>, each under its own key. \<open>sameSaleCounts\<close> relates two
  stores whose tokens differ in no id or sale count; \<open>saleOf i\<close> holds of the sale events
  of token \<open>i\<close>.
\<close>

definition saleKey :: "string \<Rightarrow> int \<Rightarrow> string" where
  "saleKey tid n = tid @ ''-'' @ toString n"

definition salesOf :: "'l state \<Rightarrow> string \<Rightarrow> string set" where
  "salesOf s tid = {k. \<exists>x. saleStore s k = Some x \<and> s_tokenDetails x = tid}"

definition numbered :: "(string \<rightharpoonup> Sale) \<Rightarrow> string \<Rightarrow> int \<Rightarrow> bool" where
  "numbered sales tid n \<longleftrightarrow>
     0 \<le> n \<and>
     (\<forall>k x. sales k = Some x \<and> s_tokenDetails x = tid \<longrightarrow>
        1 \<le> tokenSaleNumber x \<and> tokenSaleNumber x \<le> n \<and>
        k = saleKey tid (tokenSaleNumber x) \<and> s_id x = k) \<and>
     (\<forall>j. 1 \<le> j \<and> j \<le> n \<longrightarrow>
        (\<exists>x. sales (saleKey tid j) = Some x \<and> s_tokenDetails x = tid \<and>
             tokenSaleNumber x = j))"

definition saleNumbering :: "'l state \<Rightarrow> bool" where
  "saleNumbering s \<longleftrightarrow>
     (\<forall>tid t. tokenStore s tid = Some t \<longrightarrow>
        t_id t = tid \<and> numbered (saleStore s) tid (numberOfSales t))"

definition sameSaleCounts :: "'l state \<Rightarrow> 'l state \<Rightarrow> bool" where
  "sameSaleCounts s s' \<longleftrightarrow>
     (\<forall>k. tokenStore s' k = tokenStore s k \<or>
          (\<exists>t t'. tokenStore s k = Some t \<and> tokenStore s' k = Some t' \<and>
                  t_id t' = t_id t \<and> numberOfSales t' = numberOfSales t))"

fun saleOf :: "int \<Rightarrow> event \<Rightarrow> bool" where
  "saleOf i (TokenSale tx tokenId price b) = (tokenId = i)"
| "saleOf i _ = False"

section \<open>Sample inputs\<close>

text \<open>
  A contract with two levers per child token and no permission grants, a store holding
  the child token 6 of master 5 with its controller and levers, and its owner.
\<close>

definition env0 :: "unit env" where
  "env0 = \<lparr>contractArtistSecondSalePercentage = 5, contractPlatformAddress = ''0xfee'',
     contractPermissionedAddress = (\<lambda>_ _. None), contractLeverIds = (\<lambda>_. [0, 1]),
     contractOwnerOf = (\<lambda>_. ''0xa1''),
     masterLayers = (\<lambda>_. ()), masterControllerLinks = (\<lambda>_. ())\<rparr>"

definition emptyState :: "unit state" where
  "emptyState = \<lparr>tokenStore = Map.empty, bidStore = Map.empty, userStore = Map.empty,
     saleStore = Map.empty, controllerStore = Map.empty, leverStore = Map.empty,
     layerUpdateStore = Map.empty, transferStore = Map.empty, globalStore = None,
     logs = [], links = ()\<rparr>"

definition token6 :: Token where
  "token6 = \<lparr>t_id = ''6'', owner = ''0xa1'', currentBuyPrice = 40, currentBid = None,
     permissionedAddress = None, numberOfSales = 0, tokenDidHaveFirstSale = False,
     isMaster = False, pastBids = [], pastOwners = [], allTransfers = [], allSales = [],
     lastSale = None, lastTransfer = None\<rparr>"

definition user_a1 :: User where
  "user_a1 = \<lparr>u_id = ''0xa1'', bids = [], buys = [], sells = [], ownedMasters = [],
     ownerControllers = [''6-Controller'']\<rparr>"

definition controller6 :: TokenController where
  "controller6 = \<lparr>c_id = ''6-Controller'', c_numberOfUpdates = 0, numRemainingUpdates = 10,
     averageUpdateCost = 0, allUpdates = [], lastUpdate = None\<rparr>"

definition lever6 :: "string \<Rightarrow> TokenControlLever" where
  "lever6 k = \<lparr>l_id = k, previousValue = 0, currentValue = 0, latestUpdate = None,
     l_numberOfUpdates = 0\<rparr>"

definition state6 :: "unit state" where
  "state6 = emptyState
     \<lparr>tokenStore := [''6'' \<mapsto> token6],
      userStore := [''0xa1'' \<mapsto> user_a1],
      controllerStore := [''6-Controller'' \<mapsto> controller6],
      leverStore := [''6-0'' \<mapsto> lever6 ''6-0'', ''6-1'' \<mapsto> lever6 ''6-1'']\<rparr>"

definition tx0 :: "string \<Rightarrow> int \<Rightarrow> txmeta" where
  "tx0 h g = \<lparr>timestamp = 1000, blockNumber = 7, txHash = h, gasPrice = 1, gasUsed = g\<rparr>"

definition costs123 :: "event list" where
  "costs123 = [ControlLeverUpdated (tx0 ''0x01'' 1) 6 0 9 [] [] [],
               ControlLeverUpdated (tx0 ''0x02'' 2) 6 0 8 [0] [0] [7],
               ControlLeverUpdated (tx0 ''0x03'' 3) 6 0 7 [1, 0] [0, 7] [4, 5]]"

definition costs12345 :: "event list" where
  "costs12345 = costs123 @
     [ControlLeverUpdated (tx0 ''0x04'' 4) 6 0 6 [] [] [],
      ControlLeverUpdated (tx0 ''0x05'' 5) 6 0 5 [0] [7] [2]]"

text \<open>The same store with a bid of 100 by \<open>0xb2\<close> standing on token 6.\<close>

definition bid6 :: Bid where
  "bid6 = \<lparr>b_id = ''6-0xb1'', b_tokenDetails = ''6'', bidAmount = 100, bidder = ''0xb2'',
     bidTimestamp = 900, bidActive = True, bidAccepted = False,
     BidWithdrawnTimestamp = None\<rparr>"

definition user_b2 :: User where
  "user_b2 = \<lparr>u_id = ''0xb2'', bids = [''6-0xb1''], buys = [], sells = [], ownedMasters = [],
     ownerControllers = []\<rparr>"

definition stateBid :: "unit state" where
  "stateBid = state6
     \<lparr>tokenStore := [''6'' \<mapsto> token6\<lparr>currentBid := Some ''6-0xb1''\<rparr>],
      bidStore := [''6-0xb1'' \<mapsto> bid6],
      userStore := [''0xa1'' \<mapsto> user_a1, ''0xb2'' \<mapsto> user_b2]\<rparr>"

definition scenarioA :: "event list" where
  "scenarioA = [BidProposed (tx0 ''0x07'' 1) 6 150 ''0xc3'',
                BuyPriceSet (tx0 ''0x08'' 1) 6 45,
                BidWithdrawn (tx0 ''0x09'' 1) 6,
                BidProposed (tx0 ''0x0a'' 1) 6 160 ''0xb2'',
                TokenSale (tx0 ''0x0b'' 1) 6 160 ''0xb2'']"

definition twoSales :: "event list" where
  "twoSales = [TokenSale (tx0 ''0x11'' 1) 6 50 ''0xb2'',
               Transfer (tx0 ''0x14'' 1) 6 ''0xb2'' ''0xa1'',
               TokenSale (tx0 ''0x15'' 1) 6 70 ''0xb2'']"

section \<open>Basic facts\<close>

lemma digit_char_code: "d < 10 \<Longrightarrow> (of_char (digit_char d) :: nat) = 48 + d"
  by (simp add: digit_char_def)

lemma digit_char_inj:
  assumes "d < 10" "e < 10" "digit_char d = digit_char e"
  shows "d = e"
proof -
  have "(of_char (digit_char d) :: nat) = of_char (digit_char e)"
    by (simp only: assms(3))
  then have "48 + d = 48 + e"
    by (simp only: digit_char_code[OF assms(1)] digit_char_code[OF assms(2)])
  then show ?thesis by simp
qed

lemma digit_char_not_minus: "d < 10 \<Longrightarrow> digit_char d \<noteq> CHR ''-''"
  using digit_char_code[of d] by auto

lemma digits_nonempty: "digits n \<noteq> []"
  by (subst digits.simps) simp

lemma digits_no_minus: "CHR ''-'' \<notin> set (digits n)"
proof (induction n rule: digits.induct)
  case (1 n)
  show ?case
  proof (cases "n < 10")
    case True
    then show ?thesis using digit_char_not_minus[of n] by (subst digits.simps) auto
  next
    case False
    then show ?thesis
      using 1 digit_char_not_minus[of "n mod 10"] by (subst digits.simps) auto
  qed
qed

lemma digits_inj: "digits n = digits m \<Longrightarrow> n = m"
proof (induction n arbitrary: m rule: digits.induct)
  case (1 n)
  show ?case
  proof (cases "n < 10")
    case n: True
    show ?thesis
    proof (cases "m < 10")
      case True
      with n 1(2) show ?thesis
        by (auto simp add: digits.simps[of n] digits.simps[of m] dest: digit_char_inj)
    next
      case False
      with n 1(2) digits_nonempty[of "m div 10"] show ?thesis
        by (simp add: digits.simps[of n] digits.simps[of m])
    qed
  next
    case n: False
    show ?thesis
    proof (cases "m < 10")
      case True
      with n 1(2) digits_nonempty[of "n div 10"] show ?thesis
        by (simp add: digits.simps[of n] digits.simps[of m])
    next
      case False
      with n 1(2) have e: "digits (n div 10) = digits (m div 10)"
        "digit_char (n mod 10) = digit_char (m mod 10)"
        by (simp_all add: digits.simps[of n] digits.simps[of m])
      from 1(1)[OF n e(1)] have "n div 10 = m div 10" .
      moreover from e(2) have "n mod 10 = m mod 10"
        by (intro digit_char_inj) simp_all
      ultimately show ?thesis by (metis div_mult_mod_eq)
    qed
  qed
qed

lemma toString_inj: "toString i = toString j \<Longrightarrow> i = j"
proof -
  assume e: "toString i = toString j"
  have hd_digits: "\<And>n. hd (digits n) \<noteq> CHR ''-''"
    using digits_no_minus digits_nonempty by (metis list.set_sel(1))
  show ?thesis
  proof (cases "i < 0"; cases "j < 0")
    assume "i < 0" "j < 0"
    with e have "digits (nat (- i)) = digits (nat (- j))" by (simp add: toString_def)
    then have "nat (- i) = nat (- j)" by (rule digits_inj)
    with \<open>i < 0\<close> \<open>j < 0\<close> show ?thesis by simp
  next
    assume "i < 0" "\<not> j < 0"
    with e have "CHR ''-'' # digits (nat (- i)) = digits (nat j)" by (simp add: toString_def)
    then have "hd (digits (nat j)) = CHR ''-''" by (metis list.sel(1))
    with hd_digits show ?thesis by blast
  next
    assume "\<not> i < 0" "j < 0"
    with e have "digits (nat i) = CHR ''-'' # digits (nat (- j))" by (simp add: toString_def)
    then have "hd (digits (nat i)) = CHR ''-''" by (metis list.sel(1))
    with hd_digits show ?thesis by blast
  next
    assume "\<not> i < 0" "\<not> j < 0"
    with e have "digits (nat i) = digits (nat j)" by (simp add: toString_def)
    then have "nat i = nat j" by (rule digits_inj)
    with \<open>\<not> i < 0\<close> \<open>\<not> j < 0\<close> show ?thesis by simp
  qed
qed

lemma toString_no_minus: "0 \<le> j \<Longrightarrow> CHR ''-'' \<notin> set (toString j)"
  by (simp add: toString_def digits_no_minus)

lemma split_at_first:
  "c \<notin> set x \<Longrightarrow> c \<notin> set y \<Longrightarrow> x @ c # a = y @ c # b \<Longrightarrow> x = y \<and> a = b"
proof (induction x arbitrary: y)
  case Nil
  then show ?case by (cases y) auto
next
  case (Cons h t)
  then show ?case by (cases y) auto
qed

lemma split_at_last:
  assumes "c \<notin> set x" "c \<notin> set y" "a @ c # x = b @ c # y"
  shows "a = b \<and> x = y"
proof -
  have "rev x @ c # rev a = rev y @ c # rev b"
    using arg_cong[OF assms(3), of rev] by simp
  moreover have "c \<notin> set (rev x)" "c \<notin> set (rev y)" using assms by simp_all
  ultimately have "rev x = rev y \<and> rev a = rev b" by (rule split_at_first[rotated 2])
  then show ?thesis by simp
qed

lemma numbered_key_inj:
  assumes "0 \<le> i" "0 \<le> j" "a @ ''-'' @ toString i = b @ ''-'' @ toString j"
  shows "a = b \<and> i = j"
  using split_at_last[of "CHR ''-''" "toString i" "toString j" a b] assms
    toString_no_minus toString_inj
  by auto

lemmas save_defs = saveBid_def saveToken_def saveUser_def saveSale_def saveController_def
  saveLever_def saveLayerUpdate_def saveTransfer_def saveGlobalState_def logMsg_def
  refreshGlobalState_def trySetMasterLayers_def linkMasterAndControllers_def

lemma updateLevers_controllerStore:
  "updateLevers tid u ids prev upd is (s, acc) = Inr (s', acc') \<Longrightarrow>
   controllerStore s' = controllerStore s"
proof (induction "is" arbitrary: s acc)
  case Nil
  then show ?case by simp
next
  case (Cons i "is")
  then show ?case
    by (auto split: if_splits option.splits simp: saveLever_def)
qed

lemma lever_step:
  assumes "handleControlLeverUpdated env tx tid tip rem ids prev upd s = Inr s'"
    and "controllerStore s (toString tid @ ''-Controller'') = Some c"
    and "c_id c = toString tid @ ''-Controller''"
  shows "\<exists>c'. controllerStore s' (toString tid @ ''-Controller'') = Some c' \<and>
     c_id c' = c_id c \<and>
     c_numberOfUpdates c' = c_numberOfUpdates c + 1 \<and>
     averageUpdateCost c' =
       (if c_numberOfUpdates c = 0 then gasUsed tx * gasPrice tx
        else (averageUpdateCost c * c_numberOfUpdates c + gasUsed tx * gasPrice tx)
               sdiv (c_numberOfUpdates c + 1))"
  using assms
  unfolding handleControlLeverUpdated_def Let_def
  by (auto split: option.splits if_splits sum.splits prod.splits
      simp: save_defs dest!: updateLevers_controllerStore)

lemma sdiv_nonneg: "0 \<le> a \<Longrightarrow> 0 < b \<Longrightarrow> (a::int) sdiv b = a div b"
  by (simp add: signed_divide_int_def sgn_if)

lemma avg_step_bounds:
  fixes a k c S :: int
  assumes "0 < k" "0 \<le> a" "0 \<le> c" "k * a \<le> S" "2 * (S - k * a) \<le> k * (k - 1)"
  defines "a' \<equiv> (a * k + c) div (k + 1)"
  shows "0 \<le> a'" "(k + 1) * a' \<le> S + c" "2 * (S + c - (k + 1) * a') \<le> (k + 1) * k"
proof -
  let ?n = "a * k + c"
  have n0: "0 \<le> ?n" using assms by simp
  show "0 \<le> a'" unfolding a'_def using n0 assms(1) by (simp add: pos_imp_zdiv_nonneg_iff)
  have eq: "?n = (k + 1) * a' + ?n mod (k + 1)" unfolding a'_def by simp
  have r: "0 \<le> ?n mod (k + 1)" "?n mod (k + 1) \<le> k" using assms(1) 
    by (simp, smt (verit) pos_mod_bound)
  from eq r have le: "(k + 1) * a' \<le> ?n" by linarith
  have "?n \<le> S + c" using assms(4) by (simp add: mult.commute)
  with le show "(k + 1) * a' \<le> S + c" by linarith
  define r where "r = ?n mod (k + 1)"
  define d where "d = S - k * a"
  define e where "e = S + c - (k + 1) * a'"
  define q where "q = k * (k - 1)"
  have "e = d + r" unfolding e_def d_def r_def using eq by (simp add: algebra_simps)
  moreover have "2 * d \<le> q" unfolding d_def q_def using assms(5) .
  moreover have "r \<le> k" unfolding r_def using r(2) .
  ultimately have "2 * e \<le> q + 2 * k" by linarith
  also have "q + 2 * k = (k + 1) * k" unfolding q_def by (simp add: algebra_simps)
  finally show "2 * (S + c - (k + 1) * a') \<le> (k + 1) * k" unfolding e_def .
qed


lemma loadBid_bind: "loadBid s k = Option.bind k (bidStore s)"
  by (cases k) (simp_all add: loadBid_def)

lemma refresh_frame [simp]:
  "tokenStore (refreshGlobalState env s) = tokenStore s"
  "bidStore (refreshGlobalState env s) = bidStore s"
  "userStore (refreshGlobalState env s) = userStore s"
  "saleStore (refreshGlobalState env s) = saleStore s"
  "controllerStore (refreshGlobalState env s) = controllerStore s"
  "leverStore (refreshGlobalState env s) = leverStore s"
  "logs (refreshGlobalState env s) = logs s"
  by (simp_all add: refreshGlobalState_def saveGlobalState_def)

lemma createOrFetch_snd [simp]:
  "tokenStore (snd (createOrFetchUserString s a)) = tokenStore s"
  "bidStore (snd (createOrFetchUserString s a)) = bidStore s"
  "saleStore (snd (createOrFetchUserString s a)) = saleStore s"
  "controllerStore (snd (createOrFetchUserString s a)) = controllerStore s"
  "logs (snd (createOrFetchUserString s a)) = logs s"
  by (simp_all add: createOrFetchUserString_def saveUser_def Let_def split: option.splits)

lemma createOrFetch_frame:
  assumes "createOrFetchUserString s a = (u, s')"
  shows "tokenStore s' = tokenStore s" "bidStore s' = bidStore s" "saleStore s' = saleStore s"
    "controllerStore s' = controllerStore s" "logs s' = logs s"
    "userStore s k = Some v \<Longrightarrow> userStore s' k = Some v"
  using assms
  by (auto simp add: createOrFetchUserString_def saveUser_def Let_def split: option.splits)

lemma toString_6: "toString 6 = ''6''"
  by code_simp

lemma state6_token: "tokenStore state6 (toString 6) = Some token6"
  unfolding toString_6 by (simp add: state6_def)

lemma stateBid_token:
  "tokenStore stateBid (toString 6) = Some (token6\<lparr>currentBid := Some ''6-0xb1''\<rparr>)"
  unfolding toString_6 by (simp add: stateBid_def)

lemma stateBid_bid: "loadBid stateBid (currentBid (token6\<lparr>currentBid := Some ''6-0xb1''\<rparr>)) = Some bid6"
  by (simp add: loadBid_def stateBid_def)

lemma state6_nobid: "loadBid state6 (currentBid token6) = None"
  by (simp add: loadBid_def token6_def)

lemma stateBid_seller:
  "userStore stateBid (owner (token6\<lparr>currentBid := Some ''6-0xb1''\<rparr>)) = Some user_a1"
  by (simp add: stateBid_def token6_def)

lemma toString_1: "toString (0 + 1) = ''1''"
  by code_simp

lemma toString_7_absent: "getOrInitialiseToken state6 7 = None"
  by code_simp


section \<open>The running average of update costs\<close>

lemma lever_run:
  assumes "\<forall>e\<in>set evs. leverUpdateOf t e \<and> 0 \<le> updateCostOf e"
    and "controllerStore s (toString t @ ''-Controller'') = Some c"
    and "c_id c = toString t @ ''-Controller''"
    and "0 \<le> c_numberOfUpdates c"
    and "c_numberOfUpdates c = 0 \<or> 0 \<le> averageUpdateCost c"
    and "c_numberOfUpdates c * averageUpdateCost c \<le> S"
    and "2 * (S - c_numberOfUpdates c * averageUpdateCost c)
           \<le> c_numberOfUpdates c * (c_numberOfUpdates c - 1)"
    and "processEvents env evs s = Inr s'"
  shows "\<exists>c'. controllerStore s' (toString t @ ''-Controller'') = Some c' \<and>
     c_numberOfUpdates c' = c_numberOfUpdates c + int (length evs) \<and>
     averageUpdateCost c' =
       incrementalAverage (averageUpdateCost c) (c_numberOfUpdates c) (map updateCostOf evs) \<and>
     c_numberOfUpdates c' * averageUpdateCost c' \<le> S + sum_list (map updateCostOf evs) \<and>
     2 * (S + sum_list (map updateCostOf evs) - c_numberOfUpdates c' * averageUpdateCost c')
       \<le> c_numberOfUpdates c' * (c_numberOfUpdates c' - 1)"
  using assms
proof (induction evs arbitrary: s c S)
  case Nil
  then show ?case by simp
next
  case (Cons e es)
  from Cons.prems(1) obtain tx tip remaining ids prev upd
    where e: "e = ControlLeverUpdated tx t tip remaining ids prev upd"
    by (cases e) auto
  from Cons.prems(1) e have cost0: "0 \<le> gasPrice tx * gasUsed tx" by simp
  from Cons.prems(8) e obtain s1
    where h: "handleControlLeverUpdated env tx t tip remaining ids prev upd s = Inr s1"
      and r: "processEvents env es s1 = Inr s'"
    by (auto split: sum.splits)
  let ?k = "c_numberOfUpdates c" and ?a = "averageUpdateCost c" and ?x = "gasPrice tx * gasUsed tx"
  from lever_step[OF h Cons.prems(2,3)] obtain c1
    where c1: "controllerStore s1 (toString t @ ''-Controller'') = Some c1"
      and id1: "c_id c1 = c_id c"
      and k1: "c_numberOfUpdates c1 = ?k + 1"
      and a1: "averageUpdateCost c1 =
                 (if ?k = 0 then gasUsed tx * gasPrice tx
                  else (?a * ?k + gasUsed tx * gasPrice tx) sdiv (?k + 1))"
    by blast
  have a1': "averageUpdateCost c1 = (if ?k = 0 then ?x else (?a * ?k + ?x) div (?k + 1))"
  proof (cases "?k = 0")
    case True
    then show ?thesis using a1 by (simp add: mult.commute)
  next
    case False
    with Cons.prems(4,5) have "0 < ?k" "0 \<le> ?a" by auto
    then have "0 \<le> ?a * ?k + ?x" using cost0 by simp
    then have "(?a * ?k + ?x) sdiv (?k + 1) = (?a * ?k + ?x) div (?k + 1)"
      using \<open>0 < ?k\<close> by (intro sdiv_nonneg) auto
    then show ?thesis using a1 False by (simp add: mult.commute)
  qed
  have inv: "0 \<le> averageUpdateCost c1 \<and>
      (?k + 1) * averageUpdateCost c1 \<le> S + ?x \<and>
      2 * (S + ?x - (?k + 1) * averageUpdateCost c1) \<le> (?k + 1) * ?k"
  proof (cases "?k = 0")
    case True
    with Cons.prems(6,7) have "S = 0" by simp
    then show ?thesis using True a1' cost0 by simp
  next
    case False
    with Cons.prems(4,5) have kp: "0 < ?k" and ap: "0 \<le> ?a" by auto
    show ?thesis
      using avg_step_bounds[OF kp ap cost0 Cons.prems(6,7)] a1' False by simp
  qed
  have "\<exists>c'. controllerStore s' (toString t @ ''-Controller'') = Some c' \<and>
     c_numberOfUpdates c' = c_numberOfUpdates c1 + int (length es) \<and>
     averageUpdateCost c' =
       incrementalAverage (averageUpdateCost c1) (c_numberOfUpdates c1) (map updateCostOf es) \<and>
     c_numberOfUpdates c' * averageUpdateCost c' \<le> (S + ?x) + sum_list (map updateCostOf es) \<and>
     2 * ((S + ?x) + sum_list (map updateCostOf es) - c_numberOfUpdates c' * averageUpdateCost c')
       \<le> c_numberOfUpdates c' * (c_numberOfUpdates c' - 1)"
  proof (rule Cons.IH[OF _ c1 _ _ _ _ _ r])
    show "\<forall>e\<in>set es. leverUpdateOf t e \<and> 0 \<le> updateCostOf e" using Cons.prems(1) by simp
    show "c_id c1 = toString t @ ''-Controller''" using id1 Cons.prems(3) by simp
    show "0 \<le> c_numberOfUpdates c1" using k1 Cons.prems(4) by simp
    show "c_numberOfUpdates c1 = 0 \<or> 0 \<le> averageUpdateCost c1" using inv by simp
    show "c_numberOfUpdates c1 * averageUpdateCost c1 \<le> S + ?x" using inv k1 by simp
    show "2 * (S + ?x - c_numberOfUpdates c1 * averageUpdateCost c1)
            \<le> c_numberOfUpdates c1 * (c_numberOfUpdates c1 - 1)"
      using inv k1 by simp
  qed
  then obtain c' where c': "controllerStore s' (toString t @ ''-Controller'') = Some c'"
     "c_numberOfUpdates c' = c_numberOfUpdates c1 + int (length es)"
     "averageUpdateCost c' =
       incrementalAverage (averageUpdateCost c1) (c_numberOfUpdates c1) (map updateCostOf es)"
     "c_numberOfUpdates c' * averageUpdateCost c' \<le> (S + ?x) + sum_list (map updateCostOf es)"
     "2 * ((S + ?x) + sum_list (map updateCostOf es) - c_numberOfUpdates c' * averageUpdateCost c')
       \<le> c_numberOfUpdates c' * (c_numberOfUpdates c' - 1)"
    by blast
  have "updateCostOf e = ?x" using e by simp
  then show ?case using c' k1 a1' by (simp add: add.assoc)
qed

text \<open>
  C2, as the code has it. For every controller that has no update yet and every run of
  lever-update events of its token with costs \<open>c1..cn\<close>, none negative, that the
  handlers complete: the controller counts \<open>n\<close> updates and its
  \<open>averageUpdateCost\<close> is the incremental average of the costs (the first cost itself
  after one update, then \<open>(oldAvg * oldCount + newCost) div (oldCount + 1)\<close>). Every
  division truncates, so the stored average \<open>A\<close> is a lower bound of the mean that can
  fall behind it: \<open>n * A \<le> c1 + ... + cn \<le> n * A + n * (n - 1) div 2\<close>.
\<close>

theorem running_average_incremental:
  assumes "\<forall>e\<in>set evs. leverUpdateOf t e \<and> 0 \<le> updateCostOf e"
    and "controllerStore s (toString t @ ''-Controller'') = Some c"
    and "c_id c = toString t @ ''-Controller''"
    and "c_numberOfUpdates c = 0"
    and "processEvents env evs s = Inr s'"
  shows "\<exists>c'. controllerStore s' (toString t @ ''-Controller'') = Some c' \<and>
     c_numberOfUpdates c' = int (length evs) \<and>
     averageUpdateCost c' = incrementalAverage (averageUpdateCost c) 0 (map updateCostOf evs) \<and>
     (\<forall>e. evs = [e] \<longrightarrow> averageUpdateCost c' = updateCostOf e) \<and>
     int (length evs) * averageUpdateCost c' \<le> sum_list (map updateCostOf evs) \<and>
     2 * (sum_list (map updateCostOf evs) - int (length evs) * averageUpdateCost c')
       \<le> int (length evs) * (int (length evs) - 1)"
proof -
  from lever_run[where S = 0, OF assms(1,2,3) _ _ _ _ assms(5)] assms(4)
  obtain c' where c': "controllerStore s' (toString t @ ''-Controller'') = Some c'"
    "c_numberOfUpdates c' = int (length evs)"
    "averageUpdateCost c' = incrementalAverage (averageUpdateCost c) 0 (map updateCostOf evs)"
    "c_numberOfUpdates c' * averageUpdateCost c' \<le> sum_list (map updateCostOf evs)"
    "2 * (sum_list (map updateCostOf evs) - c_numberOfUpdates c' * averageUpdateCost c')
       \<le> c_numberOfUpdates c' * (c_numberOfUpdates c' - 1)"
    by auto
  have "\<forall>e. evs = [e] \<longrightarrow> averageUpdateCost c' = updateCostOf e"
    using c'(3) by auto
  then show ?thesis using c' by auto
qed

theorem running_average_incremental_witness:
  "\<exists>s' c'. processEvents env0 costs123 state6 = Inr s' \<and>
     controllerStore s' ''6-Controller'' = Some c' \<and>
     c_numberOfUpdates c' = 3 \<and>
     3 * averageUpdateCost c' \<le> 6 \<and>
     2 * (6 - 3 * averageUpdateCost c') \<le> 6"
proof -
  have run: "\<not> isl (processEvents env0 costs123 state6)" by code_simp
  then obtain s' where s': "processEvents env0 costs123 state6 = Inr s'"
    by (cases "processEvents env0 costs123 state6") auto
  have h1: "\<forall>e\<in>set costs123. leverUpdateOf 6 e \<and> 0 \<le> updateCostOf e"
    by (simp add: costs123_def tx0_def)
  have k: "toString 6 @ ''-Controller'' = ''6-Controller''" by code_simp
  have h2: "controllerStore state6 (toString 6 @ ''-Controller'') = Some controller6"
    unfolding k by (simp add: state6_def)
  have h3: "c_id controller6 = toString 6 @ ''-Controller''"
    unfolding k by (simp add: controller6_def)
  have h4: "c_numberOfUpdates controller6 = 0" by (simp add: controller6_def)
  have len: "int (length costs123) = 3" by (simp add: costs123_def)
  have sum: "sum_list (map updateCostOf costs123) = 6" by (simp add: costs123_def tx0_def)
  from running_average_incremental[OF h1 h2 h3 h4 s'] show ?thesis
    unfolding k len sum using s' by auto
qed

text \<open>
  C2 as stated fails: the costs 1, 2, 3, 4, 5 have the mean 3, and the stored average
  after the fifth update is 1 (the second update stores \<open>3 div 2 = 1\<close>, and from then on
  \<open>(1 * k + (k + 1)) div (k + 1) = 1\<close>).
\<close>

theorem running_average_not_mean:
  "map_option averageUpdateCost (controllerAfter env0 costs12345 state6 6) = Some 1 \<and>
   sum_list (map updateCostOf costs12345) div 5 = 3"
  by code_simp

section \<open>Sales and the standing bid\<close>

text \<open>
  C3. A sale of a token whose seller is a stored User completes and stores the Sale
  under the token id joined with the next sale number. When the token's current bid
  loads, the Sale has \<open>isBidSale\<close> and refers to the bid exactly when the bid's amount is
  the sale price and the bid's bidder is the buyer, and exactly then the handler sets
  \<open>bidAccepted\<close>; in either case the bid is stored inactive and its id is appended to
  the token's \<open>pastBids\<close>. When no current bid loads, \<open>isBidSale\<close> stays false, the Sale
  refers to no bid and no Bid record changes.
\<close>

theorem sale_bid_classification:
  assumes "tokenStore s (toString tokenId) = Some token"
    and "userStore s (owner token) = Some sellerUser"
  shows "\<exists>s' sale. handleTokenSale env tx tokenId price buyer' s = Inr s' \<and>
     saleStore s' (toString tokenId @ ''-'' @ toString (numberOfSales token + 1)) = Some sale \<and>
     (case loadBid s (currentBid token) of
        None \<Rightarrow> \<not> isBidSale sale \<and> bidDetails sale = None \<and> bidStore s' = bidStore s
      | Some bid \<Rightarrow>
          (isBidSale sale \<longleftrightarrow> bidAmount bid = price \<and> bidder bid = buyer') \<and>
          bidDetails sale =
            (if bidAmount bid = price \<and> bidder bid = buyer' then Some (b_id bid) else None) \<and>
          bidStore s' = (bidStore s)(b_id bid \<mapsto>
            bid\<lparr>bidAccepted := (bidAmount bid = price \<and> bidder bid = buyer') \<or> bidAccepted bid,
                bidActive := False\<rparr>) \<and>
          (\<exists>t'. tokenStore s' (t_id token) = Some t' \<and>
                pastBids t' = pastBids token @ [b_id bid]))"
proof -
  obtain bu s1 where cf: "createOrFetchUserString s buyer' = (bu, s1)"
    by (cases "createOrFetchUserString s buyer'")
  have s1: "tokenStore s1 = tokenStore s" "bidStore s1 = bidStore s" "saleStore s1 = saleStore s"
    using createOrFetch_frame(1,2,3)[OF cf] by simp_all
  have sel: "userStore s1 (owner token) = Some sellerUser"
    using createOrFetch_frame(6)[OF cf assms(2)] .
  show ?thesis
    using assms(1) cf s1 sel
    by (cases "loadBid s (currentBid token)")
       (auto simp add: handleTokenSale_def getOrInitialiseToken_def Let_def save_defs
          loadBid_bind)
qed

theorem sale_bid_classification_witness:
  "(\<exists>s' sale. handleTokenSale env0 (tx0 ''0x0b'' 1) 6 100 ''0xb2'' stateBid = Inr s' \<and>
      saleStore s' ''6-1'' = Some sale \<and> isBidSale sale \<and> bidDetails sale = Some ''6-0xb1'' \<and>
      bidStore s' ''6-0xb1'' = Some (bid6\<lparr>bidAccepted := True, bidActive := False\<rparr>)) \<and>
   (\<exists>s' sale. handleTokenSale env0 (tx0 ''0x0b'' 1) 6 100 ''0xc3'' stateBid = Inr s' \<and>
      saleStore s' ''6-1'' = Some sale \<and> \<not> isBidSale sale \<and> bidDetails sale = None \<and>
      bidStore s' ''6-0xb1'' = Some (bid6\<lparr>bidAccepted := False, bidActive := False\<rparr>))"
proof -
  have n: "numberOfSales (token6\<lparr>currentBid := Some ''6-0xb1''\<rparr>) = 0"
    by (simp add: token6_def)
  have a: "\<exists>s' sale. handleTokenSale env0 (tx0 ''0x0b'' 1) 6 100 ''0xb2'' stateBid = Inr s' \<and>
      saleStore s' ''6-1'' = Some sale \<and> isBidSale sale \<and> bidDetails sale = Some ''6-0xb1'' \<and>
      bidStore s' ''6-0xb1'' = Some (bid6\<lparr>bidAccepted := True, bidActive := False\<rparr>)"
    using sale_bid_classification[OF stateBid_token stateBid_seller,
        of env0 "tx0 ''0x0b'' 1" 100 "''0xb2''"]
    unfolding stateBid_bid n toString_1 toString_6
    by (auto simp add: bid6_def)
  have b: "\<exists>s' sale. handleTokenSale env0 (tx0 ''0x0b'' 1) 6 100 ''0xc3'' stateBid = Inr s' \<and>
      saleStore s' ''6-1'' = Some sale \<and> \<not> isBidSale sale \<and> bidDetails sale = None \<and>
      bidStore s' ''6-0xb1'' = Some (bid6\<lparr>bidAccepted := False, bidActive := False\<rparr>)"
    using sale_bid_classification[OF stateBid_token stateBid_seller,
        of env0 "tx0 ''0x0b'' 1" 100 "''0xc3''"]
    unfolding stateBid_bid n toString_1 toString_6
    by (auto simp add: bid6_def)
  from a b show ?thesis by blast
qed

section \<open>Ownership changes\<close>

text \<open>
  C5, as the code has it. A sale sets the token's \<open>currentBuyPrice\<close> to zero, clears
  \<open>currentBid\<close>, stores the previously current bid inactive, appends it to \<open>pastBids\<close>
  and removes no Bid record. A plain transfer sets \<open>currentBuyPrice\<close> to zero and leaves
  \<open>currentBid\<close>, \<open>pastBids\<close> and every Bid record as they were.
\<close>

theorem ownership_change_effect:
  assumes "tokenStore s (toString tokenId) = Some token"
  shows "(\<forall>sellerUser. userStore s (owner token) = Some sellerUser \<longrightarrow>
           (\<exists>s' t'. handleTokenSale env tx tokenId price buyer' s = Inr s' \<and>
              tokenStore s' (t_id token) = Some t' \<and>
              currentBuyPrice t' = 0 \<and> currentBid t' = None \<and>
              dom (bidStore s) \<subseteq> dom (bidStore s') \<and>
              (\<forall>bid. loadBid s (currentBid token) = Some bid \<longrightarrow>
                 (\<exists>b'. bidStore s' (b_id bid) = Some b' \<and> \<not> bidActive b') \<and>
                 pastBids t' = pastBids token @ [b_id bid])))
       \<and> (\<exists>s' t'. handleTransfer env tx tokenId from' to' s = Inr s' \<and>
              tokenStore s' (t_id token) = Some t' \<and>
              currentBuyPrice t' = 0 \<and>
              currentBid t' = currentBid token \<and> pastBids t' = pastBids token \<and>
              bidStore s' = bidStore s)"
proof (intro conjI allI impI)
  fix sellerUser
  assume sel0: "userStore s (owner token) = Some sellerUser"
  obtain bu s1 where cf: "createOrFetchUserString s buyer' = (bu, s1)"
    by (cases "createOrFetchUserString s buyer'")
  have s1: "tokenStore s1 = tokenStore s" "bidStore s1 = bidStore s"
    using createOrFetch_frame(1,2)[OF cf] by simp_all
  have sel: "userStore s1 (owner token) = Some sellerUser"
    using createOrFetch_frame(6)[OF cf sel0] .
  show "\<exists>s' t'. handleTokenSale env tx tokenId price buyer' s = Inr s' \<and>
              tokenStore s' (t_id token) = Some t' \<and>
              currentBuyPrice t' = 0 \<and> currentBid t' = None \<and>
              dom (bidStore s) \<subseteq> dom (bidStore s') \<and>
              (\<forall>bid. loadBid s (currentBid token) = Some bid \<longrightarrow>
                 (\<exists>b'. bidStore s' (b_id bid) = Some b' \<and> \<not> bidActive b') \<and>
                 pastBids t' = pastBids token @ [b_id bid])"
    using assms cf s1 sel
    by (cases "loadBid s (currentBid token)")
       (auto simp add: handleTokenSale_def getOrInitialiseToken_def Let_def save_defs
          loadBid_bind)
next
  obtain tu s2 where cf1: "createOrFetchUserString (refreshGlobalState env s) to' = (tu, s2)"
    by (cases "createOrFetchUserString (refreshGlobalState env s) to'")
  obtain fu s3 where cf2: "createOrFetchUserString s2 from' = (fu, s3)"
    by (cases "createOrFetchUserString s2 from'")
  have s2: "tokenStore s2 = tokenStore s" "bidStore s2 = bidStore s"
    using createOrFetch_frame(1,2)[OF cf1] by simp_all
  have s3: "tokenStore s3 = tokenStore s" "bidStore s3 = bidStore s"
    using createOrFetch_frame(1,2)[OF cf2] s2 by simp_all
  show "\<exists>s' t'. handleTransfer env tx tokenId from' to' s = Inr s' \<and>
              tokenStore s' (t_id token) = Some t' \<and>
              currentBuyPrice t' = 0 \<and>
              currentBid t' = currentBid token \<and> pastBids t' = pastBids token \<and>
              bidStore s' = bidStore s"
    using assms cf1 cf2 s2 s3
    by (simp add: handleTransfer_def getOrInitialiseToken_def Let_def saveBid_def
          saveToken_def saveUser_def saveSale_def saveTransfer_def
          trySetMasterLayers_def linkMasterAndControllers_def)
qed

theorem ownership_change_effect_witness:
  "(\<exists>s' t'. handleTokenSale env0 (tx0 ''0x0b'' 1) 6 100 ''0xc3'' stateBid = Inr s' \<and>
      tokenStore s' ''6'' = Some t' \<and> currentBuyPrice t' = 0 \<and> currentBid t' = None \<and>
      pastBids t' = [''6-0xb1''] \<and>
      (\<exists>b'. bidStore s' ''6-0xb1'' = Some b' \<and> \<not> bidActive b')) \<and>
   (\<exists>s' t'. handleTransfer env0 (tx0 ''0x0b'' 1) 6 ''0xa1'' ''0xc3'' stateBid = Inr s' \<and>
      tokenStore s' ''6'' = Some t' \<and> currentBuyPrice t' = 0 \<and>
      currentBid t' = Some ''6-0xb1'' \<and> pastBids t' = [] \<and>
      bidStore s' = bidStore stateBid)"
  using ownership_change_effect[OF stateBid_token, where env = env0 and tx = "tx0 ''0x0b'' 1"
      and price = 100 and buyer' = "''0xc3''" and from' = "''0xa1''" and to' = "''0xc3''"]
    stateBid_seller stateBid_bid
  by (auto simp add: bid6_def token6_def)

text \<open>
  C5 as stated fails for a plain transfer: after token 6 moves from \<open>0xa1\<close> to
  \<open>0xc3\<close> its current bid is still attached and active, and nothing was archived.
\<close>

theorem transfer_keeps_bid:
  "map_option currentBid (tokenAfter env0 [Transfer (tx0 ''0x0f'' 1) 6 ''0xa1'' ''0xc3''] stateBid ''6'')
     = Some (Some ''6-0xb1'') \<and>
   map_option pastBids (tokenAfter env0 [Transfer (tx0 ''0x0f'' 1) 6 ''0xa1'' ''0xc3''] stateBid ''6'')
     = Some [] \<and>
   map_option bidActive (bidAfter env0 [Transfer (tx0 ''0x0f'' 1) 6 ''0xa1'' ''0xc3''] stateBid ''6-0xb1'')
     = Some True \<and>
   map_option owner (tokenAfter env0 [Transfer (tx0 ''0x0f'' 1) 6 ''0xa1'' ''0xc3''] stateBid ''6'')
     = Some ''0xc3''"
  by code_simp

section \<open>Withdrawals\<close>

text \<open>
  C7. For a withdrawal on a stored token: when the token's current bid does not load,
  the handler completes with a warning in the log and leaves every Bid and every Token
  record as it was; when it loads, the handler stores the bid inactive with the
  withdrawal timestamp, appends its id to the token's \<open>pastBids\<close> and logs nothing.
\<close>

theorem withdraw_effect:
  assumes "tokenStore s (toString tokenId) = Some token"
  shows "(loadBid s (currentBid token) = None \<longrightarrow>
           (\<exists>s'. handleBidWithdrawn env tx tokenId s = Inr s' \<and>
                 bidStore s' = bidStore s \<and> tokenStore s' = tokenStore s \<and>
                 logs s' = logs s @ [(Warning, ''Bid should be defined'')]))
       \<and> (\<forall>bid. loadBid s (currentBid token) = Some bid \<longrightarrow>
           (\<exists>s'. handleBidWithdrawn env tx tokenId s = Inr s' \<and>
                 bidStore s' = (bidStore s)(b_id bid \<mapsto>
                     bid\<lparr>bidActive := False, BidWithdrawnTimestamp := Some (timestamp tx)\<rparr>) \<and>
                 tokenStore s' = (tokenStore s)(t_id token \<mapsto>
                     token\<lparr>pastBids := pastBids token @ [b_id bid]\<rparr>) \<and>
                 logs s' = logs s))"
  using assms
  by (simp add: handleBidWithdrawn_def getOrInitialiseToken_def Let_def save_defs loadBid_bind)

theorem withdraw_effect_witness:
  "(\<exists>s'. handleBidWithdrawn env0 (tx0 ''0x0e'' 1) 6 state6 = Inr s' \<and>
          bidStore s' = bidStore state6 \<and> tokenStore s' = tokenStore state6 \<and>
          logs s' = [(Warning, ''Bid should be defined'')]) \<and>
   (\<exists>s'. handleBidWithdrawn env0 (tx0 ''0x0e'' 1) 6 stateBid = Inr s' \<and>
          bidStore s' ''6-0xb1'' =
            Some (bid6\<lparr>bidActive := False, BidWithdrawnTimestamp := Some 1000\<rparr>) \<and>
          map_option pastBids (tokenStore s' ''6'') = Some [''6-0xb1''])"
proof -
  have a: "\<exists>s'. handleBidWithdrawn env0 (tx0 ''0x0e'' 1) 6 state6 = Inr s' \<and>
          bidStore s' = bidStore state6 \<and> tokenStore s' = tokenStore state6 \<and>
          logs s' = [(Warning, ''Bid should be defined'')]"
    using withdraw_effect[OF state6_token, of env0 "tx0 ''0x0e'' 1"] state6_nobid
    by (simp add: state6_def emptyState_def)
  have b: "\<exists>s'. handleBidWithdrawn env0 (tx0 ''0x0e'' 1) 6 stateBid = Inr s' \<and>
          bidStore s' ''6-0xb1'' =
            Some (bid6\<lparr>bidActive := False, BidWithdrawnTimestamp := Some 1000\<rparr>) \<and>
          map_option pastBids (tokenStore s' ''6'') = Some [''6-0xb1'']"
    using withdraw_effect[OF stateBid_token, of env0 "tx0 ''0x0e'' 1"] stateBid_bid
    by (auto simp add: bid6_def token6_def tx0_def)
  from a b show ?thesis by blast
qed

section \<open>Events on a token that is not stored\<close>

text \<open>
  C6, as the code has it. When the token an event names is not stored: the withdrawal,
  lever-update, permission and transfer handlers stop with the critical message
  \<open>Token should be defined\<close>; the bid and price handlers log a warning and complete,
  and leave the Token, Bid and Sale tables as they were. None of them stores a token for
  the missing id.
\<close>

theorem missing_token_policy:
  assumes "getOrInitialiseToken s tokenId = None"
  shows "handleBidWithdrawn env tx tokenId s = Inl (Critical ''Token should be defined'') \<and>
     handleControlLeverUpdated env tx tokenId tip remaining ids prev upd s
       = Inl (Critical ''Token should be defined'') \<and>
     handlePermissionUpdated env tx tokenId granter permissioned s
       = Inl (Critical ''Token should be defined'') \<and>
     handleTransfer env tx tokenId from' to' s = Inl (Critical ''Token should be defined'') \<and>
     (\<exists>s'. handleBidProposed env tx tokenId amount bidder' s = Inr s' \<and>
           tokenStore s' = tokenStore s \<and> bidStore s' = bidStore s \<and>
           saleStore s' = saleStore s \<and>
           logs s' = logs s @ [(Warning, ''Bid on token that doesn't exist'')]) \<and>
     (\<exists>s'. handleBuyPriceSet env tx tokenId price s = Inr s' \<and>
           tokenStore s' = tokenStore s \<and> bidStore s' = bidStore s \<and>
           saleStore s' = saleStore s \<and> userStore s' = userStore s \<and>
           logs s' = logs s @ [(Warning, ''Token should be defined'')])"
proof -
  have t: "tokenStore s (toString tokenId) = None"
    using assms by (simp add: getOrInitialiseToken_def)
  have 1: "handleBidWithdrawn env tx tokenId s = Inl (Critical ''Token should be defined'')"
    using t by (simp add: handleBidWithdrawn_def getOrInitialiseToken_def save_defs)
  have 2: "handleControlLeverUpdated env tx tokenId tip remaining ids prev upd s
       = Inl (Critical ''Token should be defined'')"
    using t by (simp add: handleControlLeverUpdated_def getOrInitialiseToken_def save_defs)
  have 3: "handlePermissionUpdated env tx tokenId granter permissioned s
       = Inl (Critical ''Token should be defined'')"
    using t by (simp add: handlePermissionUpdated_def getOrInitialiseToken_def save_defs)
  have 4: "handleTransfer env tx tokenId from' to' s = Inl (Critical ''Token should be defined'')"
    using t
    by (simp add: handleTransfer_def getOrInitialiseToken_def split_def Let_def)
  have 6: "\<exists>s'. handleBidProposed env tx tokenId amount bidder' s = Inr s' \<and>
           tokenStore s' = tokenStore s \<and> bidStore s' = bidStore s \<and>
           saleStore s' = saleStore s \<and>
           logs s' = logs s @ [(Warning, ''Bid on token that doesn't exist'')]"
    using t
    by (simp add: handleBidProposed_def getOrInitialiseToken_def split_def Let_def
          saveGlobalState_def logMsg_def)
  have 7: "\<exists>s'. handleBuyPriceSet env tx tokenId price s = Inr s' \<and>
           tokenStore s' = tokenStore s \<and> bidStore s' = bidStore s \<and>
           saleStore s' = saleStore s \<and> userStore s' = userStore s \<and>
           logs s' = logs s @ [(Warning, ''Token should be defined'')]"
    using t by (simp add: handleBuyPriceSet_def getOrInitialiseToken_def save_defs)
  from 1 2 3 4 6 7 show ?thesis by blast
qed

theorem missing_token_policy_witness:
  "handleBidWithdrawn env0 (tx0 ''0x0c'' 1) 7 state6 = Inl (Critical ''Token should be defined'') \<and>
   handleControlLeverUpdated env0 (tx0 ''0x0c'' 1) 7 0 9 [0] [0] [1] state6
     = Inl (Critical ''Token should be defined'') \<and>
   (\<exists>s'. handleBuyPriceSet env0 (tx0 ''0x0c'' 1) 7 10 state6 = Inr s' \<and>
         tokenStore s' = tokenStore state6)"
  using missing_token_policy[OF toString_7_absent, where env = env0 and tx = "tx0 ''0x0c'' 1"
      and tip = 0 and remaining = 9 and ids = "[0]" and prev = "[0]" and upd = "[1]"
      and price = 10 and granter = "''0xa1''" and permissioned = "''0xd4''"
      and from' = "''0xa1''" and to' = "''0xc3''" and amount = 10
      and bidder' = "''0xb2''"]
  by auto

text \<open>
  C6 as stated fails: a price or a bid for token 7, which is not stored, is not a fatal
  error; the handler completes with a warning.
\<close>

theorem missing_token_not_fatal:
  "getOrInitialiseToken state6 7 = None \<and>
   map_sum id logs (handleBuyPriceSet env0 (tx0 ''0x0c'' 1) 7 10 state6)
     = Inr [(Warning, ''Token should be defined'')] \<and>
   map_sum id logs (handleBidProposed env0 (tx0 ''0x0d'' 1) 7 10 ''0xb2'' state6)
     = Inr [(Warning, ''Bid on token that doesn't exist'')]"
  by code_simp

section \<open>Permission updates\<close>

text \<open>
  C10. A permission update on a stored token completes; the Token table changes only
  when the granter is the token's owner, and then only in the token's
  \<open>permissionedAddress\<close>. For any other granter every Token record is as before.
\<close>

theorem permission_effect:
  assumes "tokenStore s (toString tokenId) = Some token"
  shows "\<exists>s'. handlePermissionUpdated env tx tokenId granter permissioned s = Inr s' \<and>
     tokenStore s' =
       (if granter = owner token
        then (tokenStore s)(t_id token \<mapsto> token\<lparr>permissionedAddress := Some permissioned\<rparr>)
        else tokenStore s)"
  using assms
  by (simp add: handlePermissionUpdated_def getOrInitialiseToken_def Let_def save_defs)

theorem permission_effect_witness:
  "(\<exists>s'. handlePermissionUpdated env0 (tx0 ''0x0a'' 1) 6 ''0xa1'' ''0xd4'' state6 = Inr s' \<and>
      tokenStore s' = [''6'' \<mapsto> token6\<lparr>permissionedAddress := Some ''0xd4''\<rparr>]) \<and>
   (\<exists>s'. handlePermissionUpdated env0 (tx0 ''0x0a'' 1) 6 ''0xb2'' ''0xd4'' state6 = Inr s' \<and>
      tokenStore s' = tokenStore state6)"
  using permission_effect[OF state6_token, of env0 "tx0 ''0x0a'' 1" "''0xa1''" "''0xd4''"]
    permission_effect[OF state6_token, of env0 "tx0 ''0x0a'' 1" "''0xb2''" "''0xd4''"]
  by (simp add: token6_def state6_def)

section \<open>The bid state machine\<close>

lemma map_upd_eqI: "m' k = Some v \<Longrightarrow> (\<And>j. j \<noteq> k \<Longrightarrow> m' j = m j) \<Longrightarrow> m' = m(k \<mapsto> v)"
  by (rule ext) auto

lemma bidInv_frame:
  assumes "bidInv s" "bidStore s' = bidStore s"
    and "\<And>k. tokenStore s' k = tokenStore s k \<or>
            (\<exists>t t'. tokenStore s k = Some t \<and> tokenStore s' k = Some t' \<and>
                    t_id t' = t_id t \<and> currentBid t' = currentBid t)"
  shows "bidInv s'"
  unfolding bidInv_def keysConsistent_def tokenKeys_def activeBidIsCurrent_def
proof (intro conjI allI impI)
  fix k b assume "bidStore s' k = Some b"
  then show "b_id b = k" using assms(1,2) by (simp add: bidInv_def keysConsistent_def tokenKeys_def)
next
  fix k t assume "tokenStore s' k = Some t"
  then show "t_id t = k" using assms(1) assms(3)[of k]
    by (auto simp add: bidInv_def keysConsistent_def tokenKeys_def)
next
  fix k b assume a: "bidStore s' k = Some b \<and> bidActive b"
  then obtain t where t: "tokenStore s (b_tokenDetails b) = Some t" "currentBid t = Some k"
    using assms(1,2) by (auto simp add: bidInv_def activeBidIsCurrent_def)
  then show "\<exists>t. tokenStore s' (b_tokenDetails b) = Some t \<and> currentBid t = Some k"
    using assms(3)[of "b_tokenDetails b"] by auto
qed

lemma bidInv_supersede:
  assumes inv: "bidInv s"
    and tok: "tokenStore s tid = Some token"
    and ts: "tokenStore s' = (tokenStore s)(tid \<mapsto> token')" "t_id token' = tid"
    and bs: "bidStore s' =
       (case loadBid s (currentBid token) of
          None \<Rightarrow> bidStore s
        | Some old \<Rightarrow> (bidStore s)(b_id old \<mapsto> f old)) ++ new"
    and old': "\<And>old. \<not> bidActive (f old) \<and> b_id (f old) = b_id old"
    and new: "\<And>k b. new k = Some b \<Longrightarrow>
        b_id b = k \<and> b_tokenDetails b = tid \<and> currentBid token' = Some k"
  shows "bidInv s'"
  unfolding bidInv_def keysConsistent_def tokenKeys_def activeBidIsCurrent_def
proof (intro conjI allI impI)
  have kc: "\<And>k b. bidStore s k = Some b \<Longrightarrow> b_id b = k"
    "\<And>k t. tokenStore s k = Some t \<Longrightarrow> t_id t = k"
    using inv by (auto simp add: bidInv_def keysConsistent_def tokenKeys_def)
  have ac: "\<And>k b. bidStore s k = Some b \<Longrightarrow> bidActive b \<Longrightarrow>
       \<exists>t. tokenStore s (b_tokenDetails b) = Some t \<and> currentBid t = Some k"
    using inv by (auto simp add: bidInv_def activeBidIsCurrent_def)
  {
    fix k b assume a: "bidStore s' k = Some b"
    show "b_id b = k"
    proof (cases "new k")
      case (Some nb)
      then show ?thesis using a bs new[of k nb] by (simp add: map_add_def)
    next
      case None
      then show ?thesis using a bs kc(1) old'
        by (auto simp add: map_add_def loadBid_def split: option.splits if_splits)
    qed
  }
  {
    fix k t assume "tokenStore s' k = Some t"
    then show "t_id t = k" using ts kc(2) by (auto split: if_splits)
  }
  {
    fix k b assume a: "bidStore s' k = Some b \<and> bidActive b"
    show "\<exists>t. tokenStore s' (b_tokenDetails b) = Some t \<and> currentBid t = Some k"
    proof (cases "new k")
      case (Some nb)
      then show ?thesis using a bs new[of k nb] ts by (simp add: map_add_def)
    next
      case None
      show ?thesis
      proof (cases "loadBid s (currentBid token)")
        case n: None
        with None a bs have b: "bidStore s k = Some b" by (simp add: map_add_def)
        from ac[OF b] a obtain t where t: "tokenStore s (b_tokenDetails b) = Some t"
          "currentBid t = Some k" by blast
        have "b_tokenDetails b \<noteq> tid"
        proof
          assume "b_tokenDetails b = tid"
          with t tok have "currentBid token = Some k" by simp
          with n b show False by (simp add: loadBid_def)
        qed
        then show ?thesis using t ts by simp
      next
        case (Some old)
        then obtain ko where ko: "currentBid token = Some ko" "bidStore s ko = Some old"
          by (auto simp add: loadBid_def split: option.splits)
        then have idold: "b_id old = ko" using kc(1) by simp
        have kk: "k \<noteq> ko" using a bs None Some idold old' by (auto simp add: map_add_def)
        with None a bs Some idold have b: "bidStore s k = Some b" by (simp add: map_add_def)
        from ac[OF b] a obtain t where t: "tokenStore s (b_tokenDetails b) = Some t"
          "currentBid t = Some k" by blast
        have "b_tokenDetails b \<noteq> tid"
        proof
          assume "b_tokenDetails b = tid"
          with t tok have "currentBid token = Some k" by simp
          with ko kk show False by simp
        qed
        then show ?thesis using t ts by simp
      qed
    qed
  }
qed

lemma tokensAgree_update:
  assumes "tokenStore s k = Some t" "t_id t = k" "tokenStore s' = (tokenStore s)(t_id t' \<mapsto> t')"
    "t_id t' = t_id t" "currentBid t' = currentBid t" "numberOfSales t' = numberOfSales t"
  shows "tokensAgree s s'"
  using assms unfolding tokensAgree_def by auto

lemma tokensAgree_same: "tokenStore s' = tokenStore s \<Longrightarrow> tokensAgree s s'"
  unfolding tokensAgree_def by simp

lemma updateLevers_frame:
  "updateLevers tid u ids prev upd is (s, acc) = Inr (s', acc') \<Longrightarrow>
   tokenStore s' = tokenStore s \<and> bidStore s' = bidStore s \<and> saleStore s' = saleStore s"
proof (induction "is" arbitrary: s acc)
  case Nil
  then show ?case by simp
next
  case (Cons i "is")
  then show ?case
    by (auto split: if_splits option.splits simp: saveLever_def)
qed

lemma handleBuyPriceSet_frame:
  assumes "tokenKeys s" "handleBuyPriceSet env tx tokenId p s = Inr s'"
  shows "bidStore s' = bidStore s \<and> saleStore s' = saleStore s \<and> tokensAgree s s'"
proof (cases "tokenStore s (toString tokenId)")
  case None
  then show ?thesis using assms(2)
    by (auto simp add: handleBuyPriceSet_def getOrInitialiseToken_def save_defs Let_def
        intro: tokensAgree_same)
next
  case (Some t)
  with assms(1) have id: "t_id t = toString tokenId" by (simp add: tokenKeys_def)
  have "tokenStore s' = (tokenStore s)(t_id (t\<lparr>currentBuyPrice := p\<rparr>) \<mapsto> t\<lparr>currentBuyPrice := p\<rparr>)"
    "bidStore s' = bidStore s" "saleStore s' = saleStore s"
    using Some assms(2)
    by (auto simp add: handleBuyPriceSet_def getOrInitialiseToken_def save_defs Let_def)
  then show ?thesis using tokensAgree_update[OF Some id, of s'] by simp
qed

lemma handlePermissionUpdated_frame:
  assumes "tokenKeys s" "handlePermissionUpdated env tx tokenId g p s = Inr s'"
  shows "bidStore s' = bidStore s \<and> saleStore s' = saleStore s \<and> tokensAgree s s'"
proof (cases "tokenStore s (toString tokenId)")
  case None
  then show ?thesis using assms(2)
    by (auto simp add: handlePermissionUpdated_def getOrInitialiseToken_def save_defs Let_def)
next
  case (Some t)
  with assms(1) have id: "t_id t = toString tokenId" by (simp add: tokenKeys_def)
  show ?thesis
  proof (cases "g = owner t")
    case True
    have "tokenStore s' = (tokenStore s)(t_id (t\<lparr>permissionedAddress := Some p\<rparr>) \<mapsto>
            t\<lparr>permissionedAddress := Some p\<rparr>)"
      "bidStore s' = bidStore s" "saleStore s' = saleStore s"
      using Some assms(2) True
      by (auto simp add: handlePermissionUpdated_def getOrInitialiseToken_def save_defs Let_def)
    then show ?thesis using tokensAgree_update[OF Some id, of s'] by simp
  next
    case False
    then show ?thesis using Some assms(2)
      by (auto simp add: handlePermissionUpdated_def getOrInitialiseToken_def save_defs Let_def
          intro: tokensAgree_same)
  qed
qed

lemma handleControlLeverUpdated_frame:
  assumes "tokenKeys s" "handleControlLeverUpdated env tx tokenId tip rem ids prev upd s = Inr s'"
  shows "bidStore s' = bidStore s \<and> saleStore s' = saleStore s \<and> tokensAgree s s'"
proof (cases "tokenStore s (toString tokenId)")
  case None
  then show ?thesis using assms(2)
    by (auto simp add: handleControlLeverUpdated_def getOrInitialiseToken_def save_defs Let_def)
next
  case (Some t)
  with assms(1) have id: "t_id t = toString tokenId" by (simp add: tokenKeys_def)
  have "tokenStore s' = (tokenStore s)(t_id t \<mapsto> t) \<and>
    bidStore s' = bidStore s \<and> saleStore s' = saleStore s"
    using Some assms(2)
    unfolding handleControlLeverUpdated_def Let_def getOrInitialiseToken_def
    by (auto split: option.splits if_splits sum.splits prod.splits
        simp: saveToken_def saveController_def saveLayerUpdate_def dest!: updateLevers_frame)
  then show ?thesis using tokensAgree_update[OF Some id, of s' t] by simp
qed

lemma handleTransfer_stores:
  assumes "tokenStore s (toString tokenId) = Some tok"
  shows "\<exists>s' tok'. handleTransfer env tx tokenId f t s = Inr s' \<and>
      tokenStore s' (t_id tok) = Some tok' \<and>
      (\<forall>k. k \<noteq> t_id tok \<longrightarrow> tokenStore s' k = tokenStore s k) \<and>
      t_id tok' = t_id tok \<and>
      currentBid tok' = currentBid tok \<and> numberOfSales tok' = numberOfSales tok \<and>
      pastBids tok' = pastBids tok \<and> currentBuyPrice tok' = 0 \<and>
      bidStore s' = bidStore s \<and> saleStore s' = saleStore s"
proof -
  obtain tu s2 where cf1: "createOrFetchUserString (refreshGlobalState env s) t = (tu, s2)"
    by (cases "createOrFetchUserString (refreshGlobalState env s) t")
  obtain fu s3 where cf2: "createOrFetchUserString s2 f = (fu, s3)"
    by (cases "createOrFetchUserString s2 f")
  have s2: "tokenStore s2 = tokenStore s" "bidStore s2 = bidStore s" "saleStore s2 = saleStore s"
    using createOrFetch_frame(1,2,3)[OF cf1] by simp_all
  have s3: "tokenStore s3 = tokenStore s" "bidStore s3 = bidStore s" "saleStore s3 = saleStore s"
    using createOrFetch_frame(1,2,3)[OF cf2] s2 by simp_all
  show ?thesis
    using assms cf1 cf2 s2 s3
    by (simp add: handleTransfer_def getOrInitialiseToken_def Let_def saveBid_def
          saveToken_def saveUser_def saveSale_def saveTransfer_def
          trySetMasterLayers_def linkMasterAndControllers_def)
qed

lemma handleTransfer_frame:
  assumes "tokenKeys s" "handleTransfer env tx tokenId f t s = Inr s'"
  shows "bidStore s' = bidStore s \<and> saleStore s' = saleStore s \<and> tokensAgree s s'"
proof (cases "tokenStore s (toString tokenId)")
  case None
  then show ?thesis using assms(2)
    by (simp add: handleTransfer_def getOrInitialiseToken_def split_def Let_def)
next
  case (Some tok)
  with assms(1) have id: "t_id tok = toString tokenId" by (simp add: tokenKeys_def)
  from handleTransfer_stores[OF Some, of env tx f t] assms(2)
  obtain tok' where "tokenStore s' (t_id tok) = Some tok'"
      "\<forall>k. k \<noteq> t_id tok \<longrightarrow> tokenStore s' k = tokenStore s k" "t_id tok' = t_id tok"
      "currentBid tok' = currentBid tok" "numberOfSales tok' = numberOfSales tok"
      "bidStore s' = bidStore s" "saleStore s' = saleStore s"
    by auto
  then show ?thesis using Some id unfolding tokensAgree_def by metis
qed

lemma createOrFetch_fst_saveGlobal [simp]:
  "fst (createOrFetchUserString (saveGlobalState g s) a) = fst (createOrFetchUserString s a)"
  by (simp add: createOrFetchUserString_def saveGlobalState_def Let_def split: option.splits)

lemma handleBidProposed_stores:
  assumes "tokenStore s (toString tokenId) = Some token"
  shows "\<exists>s'. handleBidProposed env tx tokenId amount b s = Inr s' \<and>
     saleStore s' = saleStore s \<and>
     bidStore s' =
       (case loadBid s (currentBid token) of
          None \<Rightarrow> bidStore s
        | Some old \<Rightarrow> (bidStore s)(b_id old \<mapsto> old\<lparr>bidActive := False\<rparr>))
       (toString tokenId @ ''-'' @ txHash tx \<mapsto> proposedBid s tx tokenId amount b) \<and>
     tokenStore s' = (tokenStore s)(t_id token \<mapsto> token
       \<lparr>pastBids := (case loadBid s (currentBid token) of
                       None \<Rightarrow> pastBids token
                     | Some old \<Rightarrow> pastBids token @ [b_id old]),
        currentBid := Some (toString tokenId @ ''-'' @ txHash tx)\<rparr>)"
proof -
  obtain u s2 where cf: "createOrFetchUserString
      (saveGlobalState (getOrInitialiseGlobalState env s) s) b = (u, s2)"
    by (cases "createOrFetchUserString (saveGlobalState (getOrInitialiseGlobalState env s) s) b")
  have s2: "tokenStore s2 = tokenStore s" "bidStore s2 = bidStore s" "saleStore s2 = saleStore s"
    using createOrFetch_frame(1,2,3)[OF cf] by (simp_all add: saveGlobalState_def)
  have u: "u = fst (createOrFetchUserString s b)"
    using createOrFetch_fst_saveGlobal[of "getOrInitialiseGlobalState env s" s b] cf by simp
  show ?thesis
    using assms cf s2 u
    by (cases "loadBid s (currentBid token)")
       (simp_all add: handleBidProposed_def getOrInitialiseToken_def Let_def loadBid_bind
          proposedBid_def saveBid_def saveToken_def saveUser_def saveGlobalState_def
          trySetMasterLayers_def linkMasterAndControllers_def)
qed

lemma handleBidWithdrawn_stores:
  assumes "tokenStore s (toString tokenId) = Some token"
  shows "\<exists>s'. handleBidWithdrawn env tx tokenId s = Inr s' \<and>
     saleStore s' = saleStore s \<and>
     bidStore s' =
       (case loadBid s (currentBid token) of
          None \<Rightarrow> bidStore s
        | Some bid \<Rightarrow> (bidStore s)(b_id bid \<mapsto>
            bid\<lparr>bidActive := False, BidWithdrawnTimestamp := Some (timestamp tx)\<rparr>)) \<and>
     tokenStore s' =
       (case loadBid s (currentBid token) of
          None \<Rightarrow> tokenStore s
        | Some bid \<Rightarrow> (tokenStore s)(t_id token \<mapsto>
            token\<lparr>pastBids := pastBids token @ [b_id bid]\<rparr>)) \<and>
     logs s' =
       (case loadBid s (currentBid token) of
          None \<Rightarrow> logs s @ [(Warning, ''Bid should be defined'')]
        | Some bid \<Rightarrow> logs s)"
  using assms
  by (cases "loadBid s (currentBid token)")
     (simp_all add: handleBidWithdrawn_def getOrInitialiseToken_def Let_def save_defs loadBid_bind)

lemma handleTokenSale_stores:
  assumes "tokenStore s (toString tokenId) = Some token"
    and "handleTokenSale env tx tokenId price b s = Inr s'"
  shows "\<exists>sale token'.
     saleStore s' (toString tokenId @ ''-'' @ toString (numberOfSales token + 1)) = Some sale \<and>
     (\<forall>k. k \<noteq> toString tokenId @ ''-'' @ toString (numberOfSales token + 1) \<longrightarrow>
          saleStore s' k = saleStore s k) \<and>
     s_id sale = toString tokenId @ ''-'' @ toString (numberOfSales token + 1) \<and>
     s_tokenDetails sale = t_id token \<and>
     tokenSaleNumber sale = numberOfSales token + 1 \<and>
     isBidSale sale = (case loadBid s (currentBid token) of
          None \<Rightarrow> False | Some bid \<Rightarrow> bidAmount bid = price \<and> b = bidder bid) \<and>
     bidDetails sale = (case loadBid s (currentBid token) of
          None \<Rightarrow> None
        | Some bid \<Rightarrow> if bidAmount bid = price \<and> b = bidder bid then Some (b_id bid) else None) \<and>
     bidStore s' =
       (case loadBid s (currentBid token) of
          None \<Rightarrow> bidStore s
        | Some bid \<Rightarrow> (bidStore s)(b_id bid \<mapsto>
            bid\<lparr>bidAccepted := (bidAmount bid = price \<and> b = bidder bid) \<or> bidAccepted bid,
                bidActive := False\<rparr>)) \<and>
     tokenStore s' (t_id token) = Some token' \<and>
     (\<forall>k. k \<noteq> t_id token \<longrightarrow> tokenStore s' k = tokenStore s k) \<and>
     t_id token' = t_id token \<and> currentBid token' = None \<and> currentBuyPrice token' = 0 \<and>
     numberOfSales token' = numberOfSales token + 1 \<and>
     pastBids token' = (case loadBid s (currentBid token) of
          None \<Rightarrow> pastBids token | Some bid \<Rightarrow> pastBids token @ [b_id bid])"
proof -
  obtain bu s1 where cf: "createOrFetchUserString s b = (bu, s1)"
    by (cases "createOrFetchUserString s b")
  have s1: "tokenStore s1 = tokenStore s" "bidStore s1 = bidStore s" "saleStore s1 = saleStore s"
    using createOrFetch_frame(1,2,3)[OF cf] by simp_all
  from assms cf s1 obtain su where su: "userStore s1 (owner token) = Some su"
    by (cases "userStore s1 (owner token)")
       (simp_all add: handleTokenSale_def getOrInitialiseToken_def Let_def)
  show ?thesis
  proof (cases "loadBid s (currentBid token)")
    case None
    then show ?thesis
      using assms cf s1 su
      by (simp add: handleTokenSale_def getOrInitialiseToken_def Let_def loadBid_bind
          saveBid_def saveToken_def saveUser_def saveSale_def saveGlobalState_def logMsg_def
          trySetMasterLayers_def linkMasterAndControllers_def) auto
  next
    case (Some bid)
    then show ?thesis
      using assms cf s1 su
      by (simp add: handleTokenSale_def getOrInitialiseToken_def Let_def loadBid_bind
          saveBid_def saveToken_def saveUser_def saveSale_def saveGlobalState_def logMsg_def
          trySetMasterLayers_def linkMasterAndControllers_def) auto
  qed
qed

lemma bidInv_keys: "bidInv s \<Longrightarrow> tokenKeys s"
  by (simp add: bidInv_def keysConsistent_def tokenKeys_def)

lemma bidInv_agree:
  assumes "bidInv s" "bidStore s' = bidStore s \<and> saleStore s' = saleStore s \<and> tokensAgree s s'"
  shows "bidInv s'"
  using assms(2) by (intro bidInv_frame[OF assms(1)]) (auto simp add: tokensAgree_def)

lemma handleBidProposed_bidInv:
  assumes "bidInv s" "handleBidProposed env tx tokenId amount b s = Inr s'"
  shows "bidInv s'"
proof (cases "tokenStore s (toString tokenId)")
  case None
  then have "bidStore s' = bidStore s" "tokenStore s' = tokenStore s"
    using assms(2)
    by (auto simp add: handleBidProposed_def getOrInitialiseToken_def split_def Let_def
          saveGlobalState_def logMsg_def)
  then show ?thesis using bidInv_frame[OF assms(1), of s'] by simp
next
  case (Some token)
  with assms(1) have id: "t_id token = toString tokenId"
    by (simp add: bidInv_def keysConsistent_def tokenKeys_def)
  let ?k = "toString tokenId @ ''-'' @ txHash tx"
  let ?nb = "proposedBid s tx tokenId amount b"
  let ?tok = "token\<lparr>pastBids := (case loadBid s (currentBid token) of
                       None \<Rightarrow> pastBids token
                     | Some old \<Rightarrow> pastBids token @ [b_id old]),
        currentBid := Some ?k\<rparr>"
  from handleBidProposed_stores[OF Some, of env tx amount b] assms(2)
  have bs: "bidStore s' =
       (case loadBid s (currentBid token) of
          None \<Rightarrow> bidStore s
        | Some old \<Rightarrow> (bidStore s)(b_id old \<mapsto> old\<lparr>bidActive := False\<rparr>)) ++ [?k \<mapsto> ?nb]"
    and ts: "tokenStore s' = (tokenStore s)(toString tokenId \<mapsto> ?tok)"
    using id by auto
  show ?thesis
    by (rule bidInv_supersede[OF assms(1) Some ts _ bs])
       (auto simp add: id proposedBid_def split: if_splits)
qed

lemma handleBidWithdrawn_bidInv:
  assumes "bidInv s" "handleBidWithdrawn env tx tokenId s = Inr s'"
  shows "bidInv s'"
proof (cases "tokenStore s (toString tokenId)")
  case None
  then show ?thesis using assms(2)
    by (simp add: handleBidWithdrawn_def getOrInitialiseToken_def Let_def)
next
  case (Some token)
  with assms(1) have id: "t_id token = toString tokenId"
    by (simp add: bidInv_def keysConsistent_def tokenKeys_def)
  let ?tok = "case loadBid s (currentBid token) of
          None \<Rightarrow> token
        | Some bid \<Rightarrow> token\<lparr>pastBids := pastBids token @ [b_id bid]\<rparr>"
  from handleBidWithdrawn_stores[OF Some, of env tx] assms(2)
  have bs: "bidStore s' =
       (case loadBid s (currentBid token) of
          None \<Rightarrow> bidStore s
        | Some bid \<Rightarrow> (bidStore s)(b_id bid \<mapsto>
            bid\<lparr>bidActive := False, BidWithdrawnTimestamp := Some (timestamp tx)\<rparr>)) ++ Map.empty"
    and ts: "tokenStore s' = (tokenStore s)(toString tokenId \<mapsto> ?tok)"
    using id Some by (auto split: option.splits)
  show ?thesis
    by (rule bidInv_supersede[OF assms(1) Some ts _ bs])
       (auto simp add: id split: option.splits)
qed

lemma handleTokenSale_bidInv:
  assumes "bidInv s" "handleTokenSale env tx tokenId price b s = Inr s'"
  shows "bidInv s'"
proof (cases "tokenStore s (toString tokenId)")
  case None
  then show ?thesis using assms(2)
    by (simp add: handleTokenSale_def getOrInitialiseToken_def split_def Let_def)
next
  case (Some token)
  with assms(1) have id: "t_id token = toString tokenId"
    by (simp add: bidInv_def keysConsistent_def tokenKeys_def)
  from handleTokenSale_stores[OF Some assms(2)] obtain token' where
    bs: "bidStore s' =
       (case loadBid s (currentBid token) of
          None \<Rightarrow> bidStore s
        | Some bid \<Rightarrow> (bidStore s)(b_id bid \<mapsto>
            bid\<lparr>bidAccepted := (bidAmount bid = price \<and> b = bidder bid) \<or> bidAccepted bid,
                bidActive := False\<rparr>)) ++ Map.empty"
    and t1: "tokenStore s' (t_id token) = Some token'"
      "\<forall>k. k \<noteq> t_id token \<longrightarrow> tokenStore s' k = tokenStore s k"
    and t2: "t_id token' = t_id token"
    by auto
  have ts: "tokenStore s' = (tokenStore s)(toString tokenId \<mapsto> token')"
    using t1 id by (intro map_upd_eqI) auto
  show ?thesis
    by (rule bidInv_supersede[OF assms(1) Some ts _ bs])
       (auto simp add: id t2)
qed

lemma handleEvent_bidInv:
  assumes "bidInv s" "tokenEvent e" "handleEvent env e s = Inr s'"
  shows "bidInv s'"
proof (cases e)
  case (BidProposed tx tokenId amount b)
  then show ?thesis using assms handleBidProposed_bidInv by simp
next
  case (BidWithdrawn tx tokenId)
  then show ?thesis using assms handleBidWithdrawn_bidInv by simp
next
  case (BuyPriceSet tx tokenId p)
  then show ?thesis
    using assms bidInv_agree[OF assms(1) handleBuyPriceSet_frame[OF bidInv_keys[OF assms(1)]]]
    by simp
next
  case (ControlLeverUpdated tx tokenId tip remaining ids prev upd)
  then show ?thesis
    using assms
      bidInv_agree[OF assms(1) handleControlLeverUpdated_frame[OF bidInv_keys[OF assms(1)]]]
    by simp
next
  case (CreatorWhitelisted tx tokenId layerCount creator)
  then show ?thesis using assms by simp
next
  case (PermissionUpdated tx tokenId g p)
  then show ?thesis
    using assms
      bidInv_agree[OF assms(1) handlePermissionUpdated_frame[OF bidInv_keys[OF assms(1)]]]
    by simp
next
  case (TokenSale tx tokenId price b)
  then show ?thesis using assms handleTokenSale_bidInv by simp
next
  case (Transfer tx tokenId f t)
  then show ?thesis
    using assms bidInv_agree[OF assms(1) handleTransfer_frame[OF bidInv_keys[OF assms(1)]]]
    by simp
qed

lemma processEvents_bidInv:
  "bidInv s \<Longrightarrow> \<forall>e\<in>set evs. tokenEvent e \<Longrightarrow> processEvents env evs s = Inr s' \<Longrightarrow> bidInv s'"
proof (induction evs arbitrary: s)
  case Nil
  then show ?case by simp
next
  case (Cons e es)
  from Cons.prems(3) obtain s1 where s1: "handleEvent env e s = Inr s1"
    "processEvents env es s1 = Inr s'"
    by (auto split: sum.splits)
  from handleEvent_bidInv[OF Cons.prems(1) _ s1(1)] Cons.prems(2) have "bidInv s1" by simp
  from Cons.IH[OF this _ s1(2)] Cons.prems(2) show ?case by simp
qed

lemma bidInv_single_active:
  assumes "bidInv s" "k \<in> activeBids s tid" "k' \<in> activeBids s tid"
  shows "k = k'"
proof -
  from assms(2) obtain b where b: "bidStore s k = Some b" "b_tokenDetails b = tid" "bidActive b"
    by (auto simp add: activeBids_def)
  from assms(3) obtain b' where b': "bidStore s k' = Some b'" "b_tokenDetails b' = tid" "bidActive b'"
    by (auto simp add: activeBids_def)
  from assms(1) b obtain t where t: "tokenStore s tid = Some t" "currentBid t = Some k"
    unfolding bidInv_def activeBidIsCurrent_def by blast
  from assms(1) b' obtain t' where t': "tokenStore s tid = Some t'" "currentBid t' = Some k'"
    unfolding bidInv_def activeBidIsCurrent_def by blast
  from t t' show ?thesis by simp
qed

text \<open>
  C1. From a store in which every active Bid is the current bid of its token, every run
  of token events (proposals, withdrawals, sales, and also price, permission, transfer
  and lever events) that completes ends in such a store, so no token has two active
  Bids. A proposal on a token whose current bid loads writes the old Bid with
  \<open>bidActive = False\<close>, then the new active Bid, and stores the token with the old
  bid's id appended to \<open>pastBids\<close> and the new bid as \<open>currentBid\<close>.
\<close>

theorem single_active_bid:
  "(bidInv s \<and> (\<forall>e\<in>set evs. tokenEvent e) \<and> processEvents env evs s = Inr s' \<longrightarrow>
      bidInv s' \<and>
      (\<forall>tid k k'. k \<in> activeBids s' tid \<and> k' \<in> activeBids s' tid \<longrightarrow> k = k'))
   \<and> (tokenStore s (toString tokenId) = Some token \<and>
        loadBid s (currentBid token) = Some old \<longrightarrow>
      (\<exists>s1. handleBidProposed env tx tokenId amount b s = Inr s1 \<and>
         bidStore s1 = (bidStore s)
           (b_id old \<mapsto> old\<lparr>bidActive := False\<rparr>,
            toString tokenId @ ''-'' @ txHash tx \<mapsto> proposedBid s tx tokenId amount b) \<and>
         tokenStore s1 = (tokenStore s)(t_id token \<mapsto> token
           \<lparr>pastBids := pastBids token @ [b_id old],
            currentBid := Some (toString tokenId @ ''-'' @ txHash tx)\<rparr>)))"
proof (intro conjI impI)
  assume a: "bidInv s \<and> (\<forall>e\<in>set evs. tokenEvent e) \<and> processEvents env evs s = Inr s'"
  then show "bidInv s'" using processEvents_bidInv by blast
  then show "\<forall>tid k k'. k \<in> activeBids s' tid \<and> k' \<in> activeBids s' tid \<longrightarrow> k = k'"
    using bidInv_single_active by blast
next
  assume a: "tokenStore s (toString tokenId) = Some token \<and>
        loadBid s (currentBid token) = Some old"
  then show "\<exists>s1. handleBidProposed env tx tokenId amount b s = Inr s1 \<and>
         bidStore s1 = (bidStore s)
           (b_id old \<mapsto> old\<lparr>bidActive := False\<rparr>,
            toString tokenId @ ''-'' @ txHash tx \<mapsto> proposedBid s tx tokenId amount b) \<and>
         tokenStore s1 = (tokenStore s)(t_id token \<mapsto> token
           \<lparr>pastBids := pastBids token @ [b_id old],
            currentBid := Some (toString tokenId @ ''-'' @ txHash tx)\<rparr>)"
    using handleBidProposed_stores[of s tokenId token env tx amount b] by auto
qed

lemma stateBid_bidInv: "bidInv stateBid"
  by (auto simp add: bidInv_def keysConsistent_def tokenKeys_def activeBidIsCurrent_def stateBid_def
      state6_def emptyState_def bid6_def token6_def split: if_splits)

theorem single_active_bid_witness:
  "bidInv stateBid \<and>
   (\<exists>s'. processEvents env0 scenarioA stateBid = Inr s' \<and> bidInv s') \<and>
   (\<exists>s1. handleBidProposed env0 (tx0 ''0x07'' 1) 6 150 ''0xc3'' stateBid = Inr s1 \<and>
      bidStore s1 ''6-0xb1'' = Some (bid6\<lparr>bidActive := False\<rparr>) \<and>
      map_option bidActive (bidStore s1 ''6-0x07'') = Some True \<and>
      map_option currentBid (tokenStore s1 ''6'') = Some (Some ''6-0x07'') \<and>
      map_option pastBids (tokenStore s1 ''6'') = Some [''6-0xb1''])"
proof -
  have run: "\<not> isl (processEvents env0 scenarioA stateBid)" by code_simp
  then obtain s' where s': "processEvents env0 scenarioA stateBid = Inr s'"
    by (cases "processEvents env0 scenarioA stateBid") auto
  have ev: "\<forall>e\<in>set scenarioA. tokenEvent e" by (simp add: scenarioA_def)
  have a: "\<exists>s'. processEvents env0 scenarioA stateBid = Inr s' \<and> bidInv s'"
    using single_active_bid[of stateBid scenarioA env0 s'] stateBid_bidInv ev s' by blast
  have b: "\<exists>s1. handleBidProposed env0 (tx0 ''0x07'' 1) 6 150 ''0xc3'' stateBid = Inr s1 \<and>
      bidStore s1 ''6-0xb1'' = Some (bid6\<lparr>bidActive := False\<rparr>) \<and>
      map_option bidActive (bidStore s1 ''6-0x07'') = Some True \<and>
      map_option currentBid (tokenStore s1 ''6'') = Some (Some ''6-0x07'') \<and>
      map_option pastBids (tokenStore s1 ''6'') = Some [''6-0xb1'']"
    using single_active_bid[of stateBid scenarioA env0 s' 6
        "token6\<lparr>currentBid := Some ''6-0xb1''\<rparr>" bid6 "tx0 ''0x07'' 1" 150 "''0xc3''"]
      stateBid_token stateBid_bid
    by (auto simp add: toString_6 bid6_def token6_def tx0_def proposedBid_def)
  from stateBid_bidInv a b show ?thesis by blast
qed

section \<open>Sale numbering\<close>

lemma saleKey_inj: "0 \<le> i \<Longrightarrow> 0 \<le> j \<Longrightarrow> saleKey a i = saleKey b j \<Longrightarrow> a = b \<and> i = j"
  unfolding saleKey_def by (rule numbered_key_inj)

lemma saleNumbering_tokenKeys: "saleNumbering s \<Longrightarrow> tokenKeys s"
  unfolding saleNumbering_def tokenKeys_def by blast

lemma tokensAgree_sameSaleCounts: "tokensAgree s s' \<Longrightarrow> sameSaleCounts s s'"
  unfolding tokensAgree_def sameSaleCounts_def by blast

lemma saleNumbering_frame:
  assumes "saleNumbering s" "saleStore s' = saleStore s" "sameSaleCounts s s'"
  shows "saleNumbering s'"
  unfolding saleNumbering_def
proof (intro allI impI)
  fix tid t' assume t': "tokenStore s' tid = Some t'"
  from assms(3) t' obtain t where t: "tokenStore s tid = Some t" "t_id t' = t_id t"
    "numberOfSales t' = numberOfSales t"
    unfolding sameSaleCounts_def by (metis option.inject)
  from assms(1) t(1) have "t_id t = tid \<and> numbered (saleStore s) tid (numberOfSales t)"
    unfolding saleNumbering_def by blast
  then show "t_id t' = tid \<and> numbered (saleStore s') tid (numberOfSales t')"
    using t(2,3) assms(2) by simp
qed

lemma numbered_add_same:
  assumes "numbered m tid n" "s_tokenDetails x = tid" "tokenSaleNumber x = n + 1"
    "s_id x = saleKey tid (n + 1)"
  shows "numbered (m(saleKey tid (n + 1) \<mapsto> x)) tid (n + 1)"
proof -
  have n0: "0 \<le> n" using assms(1) by (simp add: numbered_def)
  have old: "\<And>k y. m k = Some y \<Longrightarrow> s_tokenDetails y = tid \<Longrightarrow>
        1 \<le> tokenSaleNumber y \<and> tokenSaleNumber y \<le> n \<and>
        k = saleKey tid (tokenSaleNumber y) \<and> s_id y = k"
    using assms(1) unfolding numbered_def by blast
  have ex: "\<And>j. 1 \<le> j \<Longrightarrow> j \<le> n \<Longrightarrow>
        \<exists>y. m (saleKey tid j) = Some y \<and> s_tokenDetails y = tid \<and> tokenSaleNumber y = j"
    using assms(1) unfolding numbered_def by blast
  show ?thesis
    unfolding numbered_def
  proof (intro conjI allI impI)
    show "0 \<le> n + 1" using n0 by simp
  next
    fix k y
    assume a: "(m(saleKey tid (n + 1) \<mapsto> x)) k = Some y \<and> s_tokenDetails y = tid"
    show "1 \<le> tokenSaleNumber y" "tokenSaleNumber y \<le> n + 1"
      "k = saleKey tid (tokenSaleNumber y)" "s_id y = k"
      using a assms(2,3,4) n0 old[of k y] by (auto split: if_splits)
  next
    fix j assume j: "1 \<le> j \<and> j \<le> n + 1"
    show "\<exists>y. (m(saleKey tid (n + 1) \<mapsto> x)) (saleKey tid j) = Some y \<and>
             s_tokenDetails y = tid \<and> tokenSaleNumber y = j"
    proof (cases "j = n + 1")
      case True
      then show ?thesis using assms(2,3) by simp
    next
      case False
      with j have jn: "1 \<le> j" "j \<le> n" by simp_all
      have "saleKey tid j \<noteq> saleKey tid (n + 1)"
        using saleKey_inj[of j "n + 1" tid tid] jn n0 False by auto
      then show ?thesis using ex[OF jn] by simp
    qed
  qed
qed

lemma numbered_add_other:
  assumes "numbered m tid n" "tid \<noteq> tid0" "s_tokenDetails x = tid0" "0 \<le> n0"
  shows "numbered (m(saleKey tid0 (n0 + 1) \<mapsto> x)) tid n"
proof -
  have old: "\<And>k y. m k = Some y \<Longrightarrow> s_tokenDetails y = tid \<Longrightarrow>
        1 \<le> tokenSaleNumber y \<and> tokenSaleNumber y \<le> n \<and>
        k = saleKey tid (tokenSaleNumber y) \<and> s_id y = k"
    using assms(1) unfolding numbered_def by blast
  have ex: "\<And>j. 1 \<le> j \<Longrightarrow> j \<le> n \<Longrightarrow>
        \<exists>y. m (saleKey tid j) = Some y \<and> s_tokenDetails y = tid \<and> tokenSaleNumber y = j"
    using assms(1) unfolding numbered_def by blast
  show ?thesis
    unfolding numbered_def
  proof (intro conjI allI impI)
    show "0 \<le> n" using assms(1) by (simp add: numbered_def)
  next
    fix k y
    assume a: "(m(saleKey tid0 (n0 + 1) \<mapsto> x)) k = Some y \<and> s_tokenDetails y = tid"
    show "1 \<le> tokenSaleNumber y" "tokenSaleNumber y \<le> n"
      "k = saleKey tid (tokenSaleNumber y)" "s_id y = k"
      using a assms(2,3) old[of k y] by (auto split: if_splits)
  next
    fix j assume j: "1 \<le> j \<and> j \<le> n"
    have "saleKey tid j \<noteq> saleKey tid0 (n0 + 1)"
      using saleKey_inj[of j "n0 + 1" tid tid0] j assms(2,4) by auto
    then show "\<exists>y. (m(saleKey tid0 (n0 + 1) \<mapsto> x)) (saleKey tid j) = Some y \<and>
             s_tokenDetails y = tid \<and> tokenSaleNumber y = j"
      using ex[of j] j by simp
  qed
qed

lemma sameSaleCounts_count:
  assumes "sameSaleCounts s s'" "tokenStore s k = Some t"
  shows "\<exists>t'. tokenStore s' k = Some t' \<and> numberOfSales t' = numberOfSales t"
  using assms unfolding sameSaleCounts_def by (metis option.inject)

lemma sameSaleCounts_update:
  assumes "tokenStore s k = Some t" "t_id t = k" "tokenStore s' = (tokenStore s)(t_id t \<mapsto> t')"
    "t_id t' = t_id t" "numberOfSales t' = numberOfSales t"
  shows "sameSaleCounts s s'"
  using assms unfolding sameSaleCounts_def by auto

lemma handleBidProposed_sales:
  assumes "tokenKeys s" "handleBidProposed env tx tokenId amount b s = Inr s'"
  shows "saleStore s' = saleStore s \<and> sameSaleCounts s s'"
proof (cases "tokenStore s (toString tokenId)")
  case None
  then have "saleStore s' = saleStore s" "tokenStore s' = tokenStore s"
    using assms(2)
    by (auto simp add: handleBidProposed_def getOrInitialiseToken_def split_def Let_def
          saveGlobalState_def logMsg_def)
  then show ?thesis by (simp add: sameSaleCounts_def)
next
  case (Some token)
  with assms(1) have id: "t_id token = toString tokenId" by (simp add: tokenKeys_def)
  from handleBidProposed_stores[OF Some, of env tx amount b] assms(2)
  show ?thesis using sameSaleCounts_update[OF Some id, of s'] by auto
qed

lemma handleBidWithdrawn_sales:
  assumes "tokenKeys s" "handleBidWithdrawn env tx tokenId s = Inr s'"
  shows "saleStore s' = saleStore s \<and> sameSaleCounts s s'"
proof (cases "tokenStore s (toString tokenId)")
  case None
  then show ?thesis using assms(2)
    by (simp add: handleBidWithdrawn_def getOrInitialiseToken_def Let_def)
next
  case (Some token)
  with assms(1) have id: "t_id token = toString tokenId" by (simp add: tokenKeys_def)
  from handleBidWithdrawn_stores[OF Some, of env tx] assms(2)
  show ?thesis using sameSaleCounts_update[OF Some id, of s'] 
    by (cases "loadBid s (currentBid token)") (auto simp add: sameSaleCounts_def)
qed

lemma handleTokenSale_sales:
  assumes "saleNumbering s" "handleTokenSale env tx tokenId price b s = Inr s'"
  shows "saleNumbering s'"
    and "\<And>i t. tokenStore s (toString i) = Some t \<Longrightarrow>
           \<exists>t'. tokenStore s' (toString i) = Some t' \<and>
                numberOfSales t' = numberOfSales t + (if tokenId = i then 1 else 0)"
proof -
  obtain token where tok: "tokenStore s (toString tokenId) = Some token"
    using assms(2)
    by (cases "tokenStore s (toString tokenId)")
       (simp_all add: handleTokenSale_def getOrInitialiseToken_def split_def Let_def)
  from assms(1) tok have id: "t_id token = toString tokenId"
    and num: "numbered (saleStore s) (toString tokenId) (numberOfSales token)"
    unfolding saleNumbering_def by blast+
  let ?n = "numberOfSales token"
  let ?k = "saleKey (toString tokenId) (?n + 1)"
  from handleTokenSale_stores[OF tok assms(2)] obtain sale token' where
    s1: "saleStore s' ?k = Some sale" "\<forall>k. k \<noteq> ?k \<longrightarrow> saleStore s' k = saleStore s k"
    and sale: "s_id sale = ?k" "s_tokenDetails sale = t_id token" "tokenSaleNumber sale = ?n + 1"
    and t1: "tokenStore s' (t_id token) = Some token'"
      "\<forall>k. k \<noteq> t_id token \<longrightarrow> tokenStore s' k = tokenStore s k"
    and t2: "t_id token' = t_id token" "numberOfSales token' = ?n + 1"
    unfolding saleKey_def by blast
  have ss: "saleStore s' = (saleStore s)(?k \<mapsto> sale)"
    using s1 by (intro map_upd_eqI) auto
  have n0: "0 \<le> ?n" using num by (simp add: numbered_def)
  show "saleNumbering s'"
    unfolding saleNumbering_def
  proof (intro allI impI)
    fix tid t assume t: "tokenStore s' tid = Some t"
    show "t_id t = tid \<and> numbered (saleStore s') tid (numberOfSales t)"
    proof (cases "tid = toString tokenId")
      case True
      with t t1 id t2 have "t = token'" by simp
      then show ?thesis
        using numbered_add_same[OF num, of sale] sale id t2 True ss by simp
    next
      case False
      with t t1 id have old: "tokenStore s tid = Some t" by simp
      with assms(1) have "t_id t = tid" "numbered (saleStore s) tid (numberOfSales t)"
        unfolding saleNumbering_def by blast+
      then show ?thesis
        using numbered_add_other[OF _ False _ n0, of "saleStore s" "numberOfSales t" sale]
          sale id ss by simp
    qed
  qed
  fix i t assume it: "tokenStore s (toString i) = Some t"
  show "\<exists>t'. tokenStore s' (toString i) = Some t' \<and>
           numberOfSales t' = numberOfSales t + (if tokenId = i then 1 else 0)"
  proof (cases "tokenId = i")
    case True
    then show ?thesis using it tok t1 t2 id by simp
  next
    case False
    then have "toString i \<noteq> t_id token" using id toString_inj by auto
    then show ?thesis using it t1 False by simp
  qed
qed

lemma handleEvent_sales:
  assumes "saleNumbering s" "tokenEvent e" "handleEvent env e s = Inr s'"
  shows "saleNumbering s'"
    and "\<And>i t. tokenStore s (toString i) = Some t \<Longrightarrow>
           \<exists>t'. tokenStore s' (toString i) = Some t' \<and>
                numberOfSales t' = numberOfSales t + (if saleOf i e then 1 else 0)"
proof -
  have keys: "tokenKeys s" using assms(1) by (rule saleNumbering_tokenKeys)
  have frame: "saleStore s' = saleStore s \<and> sameSaleCounts s s'" if "\<not> (\<exists>i. saleOf i e)"
  proof (cases e)
    case (BidProposed tx tokenId amount b)
    then show ?thesis using assms(3) handleBidProposed_sales[OF keys] by simp
  next
    case (BidWithdrawn tx tokenId)
    then show ?thesis using assms(3) handleBidWithdrawn_sales[OF keys] by simp
  next
    case (BuyPriceSet tx tokenId p)
    with assms(3) have h: "handleBuyPriceSet env tx tokenId p s = Inr s'" by simp
    from handleBuyPriceSet_frame[OF keys h] show ?thesis
      using tokensAgree_sameSaleCounts by blast
  next
    case (ControlLeverUpdated tx tokenId tip remaining ids prev upd)
    with assms(3) have h: "handleControlLeverUpdated env tx tokenId tip remaining ids prev upd s = Inr s'" by simp
    from handleControlLeverUpdated_frame[OF keys h] show ?thesis
      using tokensAgree_sameSaleCounts by blast
  next
    case (CreatorWhitelisted tx tokenId layerCount creator)
    then show ?thesis using assms(2) by simp
  next
    case (PermissionUpdated tx tokenId g p)
    with assms(3) have h: "handlePermissionUpdated env tx tokenId g p s = Inr s'" by simp
    from handlePermissionUpdated_frame[OF keys h] show ?thesis
      using tokensAgree_sameSaleCounts by blast
  next
    case (TokenSale tx tokenId price b)
    then show ?thesis using that by auto
  next
    case (Transfer tx tokenId f t)
    with assms(3) have h: "handleTransfer env tx tokenId f t s = Inr s'" by simp
    from handleTransfer_frame[OF keys h] show ?thesis
      using tokensAgree_sameSaleCounts by blast
  qed
  show "saleNumbering s'"
  proof (cases "\<exists>i. saleOf i e")
    case True
    then obtain tx tokenId price b where "e = TokenSale tx tokenId price b"
      by (cases e) auto
    then show ?thesis using assms handleTokenSale_sales(1) by simp
  next
    case False
    then show ?thesis using frame saleNumbering_frame[OF assms(1)] by blast
  qed
  fix i t assume it: "tokenStore s (toString i) = Some t"
  show "\<exists>t'. tokenStore s' (toString i) = Some t' \<and>
           numberOfSales t' = numberOfSales t + (if saleOf i e then 1 else 0)"
  proof (cases "\<exists>i. saleOf i e")
    case True
    then obtain tx tokenId price b where e: "e = TokenSale tx tokenId price b"
      by (cases e) auto
    then show ?thesis using assms handleTokenSale_sales(2)[OF assms(1) _ it, of env tx tokenId price b s']
      by auto
  next
    case False
    then show ?thesis using frame sameSaleCounts_count[OF _ it, of s'] by auto
  qed
qed

lemma processEvents_sales:
  assumes "saleNumbering s" "\<forall>e\<in>set evs. tokenEvent e" "processEvents env evs s = Inr s'"
    "tokenStore s (toString i) = Some t"
  shows "saleNumbering s' \<and>
     (\<exists>t'. tokenStore s' (toString i) = Some t' \<and>
          numberOfSales t' = numberOfSales t + int (length (filter (saleOf i) evs)))"
  using assms
proof (induction evs arbitrary: s t)
  case Nil
  then show ?case by simp
next
  case (Cons e es)
  from Cons.prems(3) obtain s1 where s1: "handleEvent env e s = Inr s1"
    "processEvents env es s1 = Inr s'"
    by (auto split: sum.splits)
  have te: "tokenEvent e" "\<forall>e\<in>set es. tokenEvent e" using Cons.prems(2) by simp_all
  from handleEvent_sales[OF Cons.prems(1) te(1) s1(1)] Cons.prems(4)
  obtain t1 where inv1: "saleNumbering s1" and t1: "tokenStore s1 (toString i) = Some t1"
    "numberOfSales t1 = numberOfSales t + (if saleOf i e then 1 else 0)"
    by blast
  from Cons.IH[OF inv1 te(2) s1(2) t1(1)] t1(2) show ?case by auto
qed

lemma numbered_salesOf:
  assumes "numbered (saleStore s) tid n"
  shows "salesOf s tid = saleKey tid ` {1..n}" and "card (salesOf s tid) = nat n"
proof -
  have old: "\<And>k y. saleStore s k = Some y \<Longrightarrow> s_tokenDetails y = tid \<Longrightarrow>
        1 \<le> tokenSaleNumber y \<and> tokenSaleNumber y \<le> n \<and>
        k = saleKey tid (tokenSaleNumber y)"
    using assms unfolding numbered_def by blast
  have ex: "\<And>j. 1 \<le> j \<Longrightarrow> j \<le> n \<Longrightarrow>
        \<exists>y. saleStore s (saleKey tid j) = Some y \<and> s_tokenDetails y = tid"
    using assms unfolding numbered_def by blast
  show eq: "salesOf s tid = saleKey tid ` {1..n}"
  proof (rule set_eqI, rule iffI)
    fix k assume "k \<in> salesOf s tid"
    then obtain y where y: "saleStore s k = Some y" "s_tokenDetails y = tid"
      by (auto simp add: salesOf_def)
    from old[OF y] show "k \<in> saleKey tid ` {1..n}" by auto
  next
    fix k assume "k \<in> saleKey tid ` {1..n}"
    then obtain j where j: "k = saleKey tid j" "1 \<le> j" "j \<le> n" by auto
    from ex[OF j(2,3)] j(1) show "k \<in> salesOf s tid" by (auto simp add: salesOf_def)
  qed
  have "inj_on (saleKey tid) {1..n}"
  proof (rule inj_onI)
    fix a b assume "a \<in> {1..n}" "b \<in> {1..n}" "saleKey tid a = saleKey tid b"
    then show "a = b" using saleKey_inj[of a b tid tid] by simp
  qed
  then show "card (salesOf s tid) = nat n"
    unfolding eq by (simp add: card_image)
qed

text \<open>
  C4. From a store in which the Sales naming each stored token are exactly those numbered
  \<open>1..numberOfSales\<close>, every run of token events that completes ends in such a store,
  and for a token \<open>i\<close> with \<open>K\<close> sale events in the run: \<open>numberOfSales\<close> grows by \<open>K\<close>,
  the Sales naming the token are stored under the keys \<open>i-1 .. i-numberOfSales\<close>, the
  Sale under \<open>i-n\<close> has \<open>tokenSaleNumber = n\<close>, and their count is \<open>numberOfSales\<close>. From a
  token without sales the numbers are exactly \<open>1..K\<close>.
\<close>

theorem sale_numbering:
  assumes "saleNumbering s" "\<forall>e\<in>set evs. tokenEvent e" "processEvents env evs s = Inr s'"
    and "tokenStore s (toString i) = Some t"
  shows "saleNumbering s' \<and>
     (\<exists>t'. tokenStore s' (toString i) = Some t' \<and>
        numberOfSales t' = numberOfSales t + int (length (filter (saleOf i) evs)) \<and>
        salesOf s' (toString i) = saleKey (toString i) ` {1..numberOfSales t'} \<and>
        card (salesOf s' (toString i)) = nat (numberOfSales t') \<and>
        (\<forall>n\<in>{1..numberOfSales t'}.
           \<exists>x. saleStore s' (toString i @ ''-'' @ toString n) = Some x \<and>
               s_id x = toString i @ ''-'' @ toString n \<and>
               s_tokenDetails x = toString i \<and> tokenSaleNumber x = n))"
proof -
  from processEvents_sales[OF assms] obtain t' where inv: "saleNumbering s'"
    and t': "tokenStore s' (toString i) = Some t'"
      "numberOfSales t' = numberOfSales t + int (length (filter (saleOf i) evs))"
    by blast
  from inv t'(1) have num: "numbered (saleStore s') (toString i) (numberOfSales t')"
    unfolding saleNumbering_def by blast
  have "\<forall>n\<in>{1..numberOfSales t'}.
           \<exists>x. saleStore s' (toString i @ ''-'' @ toString n) = Some x \<and>
               s_id x = toString i @ ''-'' @ toString n \<and>
               s_tokenDetails x = toString i \<and> tokenSaleNumber x = n"
    using num unfolding numbered_def saleKey_def by (metis atLeastAtMost_iff)
  then show ?thesis using inv t' numbered_salesOf[OF num] by blast
qed

lemma state6_saleNumbering: "saleNumbering state6"
  unfolding saleNumbering_def numbered_def
  by (simp add: state6_def emptyState_def token6_def)

theorem sale_numbering_witness:
  "saleNumbering state6 \<and>
   (\<exists>s' t'. processEvents env0 twoSales state6 = Inr s' \<and> saleNumbering s' \<and>
      tokenStore s' ''6'' = Some t' \<and> numberOfSales t' = 2 \<and>
      salesOf s' ''6'' = saleKey ''6'' ` {1..2} \<and> card (salesOf s' ''6'') = 2)"
proof -
  have run: "\<not> isl (processEvents env0 twoSales state6)" by code_simp
  then obtain s' where s': "processEvents env0 twoSales state6 = Inr s'"
    by (cases "processEvents env0 twoSales state6") auto
  have ev: "\<forall>e\<in>set twoSales. tokenEvent e" by (simp add: twoSales_def)
  have n: "numberOfSales token6 + int (length (filter (saleOf 6) twoSales)) = 2"
    by (simp add: token6_def twoSales_def)
  from sale_numbering[OF state6_saleNumbering ev s' state6_token]
  show ?thesis using s' state6_saleNumbering unfolding n toString_6 by auto
qed

section \<open>Token creation\<close>

lemma fold_saveLever_frame:
  "tokenStore (fold (\<lambda>l. saveLever (newLever i l)) ls s) = tokenStore s"
  "controllerStore (fold (\<lambda>l. saveLever (newLever i l)) ls s) = controllerStore s"
  "globalStore (fold (\<lambda>l. saveLever (newLever i l)) ls s) = globalStore s"
  by (induction ls arbitrary: s) (simp_all add: saveLever_def)

lemma fold_saveLever_levers:
  "leverStore (fold (\<lambda>l. saveLever (newLever i l)) ls s) k =
     (if k \<in> (\<lambda>l. toString i @ ''-'' @ toString l) ` set ls
      then Some \<lparr>l_id = k, previousValue = 0, currentValue = 0, latestUpdate = None,
                 l_numberOfUpdates = 0\<rparr>
      else leverStore s k)"
proof (induction ls arbitrary: s rule: rev_induct)
  case Nil
  then show ?case by simp
next
  case (snoc l ls)
  then show ?case by (auto simp add: saveLever_def newLever_def)
qed

lemma createChild_stores:
  "tokenStore (createChild env i s) = (tokenStore s)(toString i \<mapsto> newToken env i False)"
  "controllerStore (createChild env i s) =
     (controllerStore s)(toString i @ ''-Controller'' \<mapsto> newController i)"
  "globalStore (createChild env i s) = globalStore s"
  "leverStore (createChild env i s) k =
     (if k \<in> (\<lambda>l. toString i @ ''-'' @ toString l) ` set (contractLeverIds env i)
      then Some \<lparr>l_id = k, previousValue = 0, currentValue = 0, latestUpdate = None,
                 l_numberOfUpdates = 0\<rparr>
      else leverStore s k)"
  by (simp_all add: createChild_def fold_saveLever_frame fold_saveLever_levers
      saveController_def saveToken_def newToken_def newController_def)

lemma children_tokens:
  "i \<in> set is \<Longrightarrow> tokenStore (fold (createChild env) is s) (toString i) = Some (newToken env i False)"
  "k \<notin> toString ` set is \<Longrightarrow> tokenStore (fold (createChild env) is s) k = tokenStore s k"
proof (induction "is" arbitrary: s rule: rev_induct)
  case Nil
  { case 1 then show ?case by simp }
  { case 2 then show ?case by simp }
next
  case (snoc x xs)
  { case 1
    show ?case
    proof (cases "i = x")
      case True
      then show ?thesis by (simp add: createChild_stores)
    next
      case False
      then have "toString i \<noteq> toString x" using toString_inj by blast
      moreover have "i \<in> set xs" using 1 False by simp
      ultimately show ?thesis using snoc(1) by (simp add: createChild_stores)
    qed }
  { case 2
    then show ?case using snoc(2) by (simp add: createChild_stores) }
qed

lemma children_controllers:
  "i \<in> set is \<Longrightarrow>
     controllerStore (fold (createChild env) is s) (toString i @ ''-Controller'')
       = Some (newController i)"
  "k \<notin> (\<lambda>i. toString i @ ''-Controller'') ` set is \<Longrightarrow>
     controllerStore (fold (createChild env) is s) k = controllerStore s k"
proof (induction "is" arbitrary: s rule: rev_induct)
  case Nil
  { case 1 then show ?case by simp }
  { case 2 then show ?case by simp }
next
  case (snoc x xs)
  { case 1
    show ?case
    proof (cases "i = x")
      case True
      then show ?thesis by (simp add: createChild_stores)
    next
      case False
      then have "toString i \<noteq> toString x" using toString_inj by blast
      moreover have "i \<in> set xs" using 1 False by simp
      ultimately show ?thesis using snoc(1) by (simp add: createChild_stores)
    qed }
  { case 2
    then show ?case using snoc(2) by (simp add: createChild_stores) }
qed

lemma children_levers:
  "leverStore (fold (createChild env) is s) k =
     (if \<exists>i\<in>set is. \<exists>l\<in>set (contractLeverIds env i). k = toString i @ ''-'' @ toString l
      then Some \<lparr>l_id = k, previousValue = 0, currentValue = 0, latestUpdate = None,
                 l_numberOfUpdates = 0\<rparr>
      else leverStore s k)"
proof (induction "is" arbitrary: s rule: rev_induct)
  case Nil
  then show ?case by simp
next
  case (snoc x xs)
  then show ?case by (auto simp add: createChild_stores)
qed

lemma children_global: "globalStore (fold (createChild env) is s) = globalStore s"
  by (induction "is" arbitrary: s) (simp_all add: createChild_stores)

text \<open>
  C9. A creation event for the master id \<open>M\<close> with \<open>N\<close> children completes; it sets the
  expected token supply to \<open>M + N + 1\<close> and the latest master id to \<open>M\<close>, stores the master
  Token under \<open>M\<close> with \<open>isMaster\<close>, and for every \<open>i\<close> in \<open>M+1..M+N\<close> a Token without
  \<open>isMaster\<close>, the TokenController \<open>i-Controller\<close> and one TokenControlLever per lever id of
  the contract. It stores no other Token, TokenController or TokenControlLever. The
  records come from the modelled \<open>createTokensFromMasterTokenId\<close>; the supply is the
  handler's own arithmetic.
\<close>

theorem creation_event:
  "\<exists>s'. handleCreatorWhitelisted env tx M N creator s = Inr s' \<and>
     map_option currentExpectedTokenSupply (globalStore s') = Some (M + N + 1) \<and>
     map_option latestMasterTokenId (globalStore s') = Some M \<and>
     tokenStore s' (toString M) = Some (newToken env M True) \<and>
     (\<forall>i\<in>{M + 1 .. M + N}.
        tokenStore s' (toString i) = Some (newToken env i False) \<and>
        controllerStore s' (toString i @ ''-Controller'') = Some (newController i) \<and>
        (\<forall>l\<in>set (contractLeverIds env i).
           leverStore s' (toString i @ ''-'' @ toString l) = Some (newLever i l))) \<and>
     (\<forall>k. k \<notin> toString ` insert M {M + 1 .. M + N} \<longrightarrow>
          tokenStore s' k = tokenStore s k) \<and>
     (\<forall>k. k \<notin> (\<lambda>i. toString i @ ''-Controller'') ` {M + 1 .. M + N} \<longrightarrow>
          controllerStore s' k = controllerStore s k) \<and>
     (\<forall>k. (\<forall>i\<in>{M + 1 .. M + N}. \<forall>l\<in>set (contractLeverIds env i).
              k \<noteq> toString i @ ''-'' @ toString l) \<longrightarrow>
          leverStore s' k = leverStore s k)"
proof -
  let ?g = "(getOrInitialiseGlobalState env s)
            \<lparr>latestMasterTokenId := M, currentExpectedTokenSupply := M + N + 1\<rparr>"
  let ?s0 = "saveToken (newToken env M True) (saveGlobalState ?g s)"
  let ?s' = "fold (createChild env) [M + 1 .. M + N] ?s0"
  have run: "handleCreatorWhitelisted env tx M N creator s = Inr ?s'"
    by (simp add: handleCreatorWhitelisted_def createTokensFromMasterTokenId_def Let_def)
  have g: "globalStore ?s' = Some ?g"
    by (simp add: children_global saveToken_def saveGlobalState_def)
  have master: "tokenStore ?s' (toString M) = Some (newToken env M True)"
  proof -
    have "toString M \<notin> toString ` set [M + 1 .. M + N]"
    proof
      assume "toString M \<in> toString ` set [M + 1 .. M + N]"
      then obtain x where x: "toString M = toString x" "M + 1 \<le> x" by auto
      from toString_inj[OF x(1)] x(2) show False by simp
    qed
    then show ?thesis
      by (simp add: children_tokens(2) saveToken_def saveGlobalState_def newToken_def)
  qed
  have child: "\<forall>i\<in>{M + 1 .. M + N}.
        tokenStore ?s' (toString i) = Some (newToken env i False) \<and>
        controllerStore ?s' (toString i @ ''-Controller'') = Some (newController i) \<and>
        (\<forall>l\<in>set (contractLeverIds env i).
           leverStore ?s' (toString i @ ''-'' @ toString l) = Some (newLever i l))"
  proof (intro ballI conjI)
    fix i assume i: "i \<in> {M + 1 .. M + N}"
    then have m: "i \<in> set [M + 1 .. M + N]" by simp
    show "tokenStore ?s' (toString i) = Some (newToken env i False)"
      using children_tokens(1)[OF m] .
    show "controllerStore ?s' (toString i @ ''-Controller'') = Some (newController i)"
      using children_controllers(1)[OF m] .
    fix l assume l: "l \<in> set (contractLeverIds env i)"
    show "leverStore ?s' (toString i @ ''-'' @ toString l) = Some (newLever i l)"
      using m l by (auto simp add: children_levers newLever_def)
  qed
  have f1: "\<forall>k. k \<notin> toString ` insert M {M + 1 .. M + N} \<longrightarrow>
          tokenStore ?s' k = tokenStore s k"
    by (simp add: children_tokens(2) saveToken_def saveGlobalState_def newToken_def)
  have f2: "\<forall>k. k \<notin> (\<lambda>i. toString i @ ''-Controller'') ` {M + 1 .. M + N} \<longrightarrow>
          controllerStore ?s' k = controllerStore s k"
    by (simp add: children_controllers(2) saveToken_def saveGlobalState_def)
  have f3: "\<forall>k. (\<forall>i\<in>{M + 1 .. M + N}. \<forall>l\<in>set (contractLeverIds env i).
              k \<noteq> toString i @ ''-'' @ toString l) \<longrightarrow>
          leverStore ?s' k = leverStore s k"
    by (auto simp add: children_levers saveToken_def saveGlobalState_def)
  from run g master child f1 f2 f3 show ?thesis by simp
qed

lemma toString_samples:
  "toString 5 = ''5''" "toString 7 = ''7''" "toString 8 = ''8''" "toString (5 + 1) = ''6''"
  "toString (5 + 3) = ''8''"
  by code_simp+

theorem creation_event_witness:
  "\<exists>s'. handleCreatorWhitelisted env0 (tx0 ''0x00'' 1) 5 3 ''0xa1'' emptyState = Inr s' \<and>
     map_option currentExpectedTokenSupply (globalStore s') = Some 9 \<and>
     map_option isMaster (tokenStore s' ''5'') = Some True \<and>
     map_option isMaster (tokenStore s' ''6'') = Some False \<and>
     map_option isMaster (tokenStore s' ''8'') = Some False \<and>
     map_option c_numberOfUpdates (controllerStore s' ''7-Controller'') = Some 0 \<and>
     map_option l_id (leverStore s' ''8-1'') = Some ''8-1'' \<and>
     controllerStore s' ''5-Controller'' = None"
proof -
  from creation_event[of env0 "tx0 ''0x00'' 1" 5 3 "''0xa1''" emptyState]
  obtain s' where run: "handleCreatorWhitelisted env0 (tx0 ''0x00'' 1) 5 3 ''0xa1'' emptyState = Inr s'"
    and g: "map_option currentExpectedTokenSupply (globalStore s') = Some (5 + 3 + 1)"
    and m: "tokenStore s' (toString 5) = Some (newToken env0 5 True)"
    and c: "\<forall>i\<in>{5 + 1 .. 5 + 3}.
        tokenStore s' (toString i) = Some (newToken env0 i False) \<and>
        controllerStore s' (toString i @ ''-Controller'') = Some (newController i) \<and>
        (\<forall>l\<in>set (contractLeverIds env0 i).
           leverStore s' (toString i @ ''-'' @ toString l) = Some (newLever i l))"
    and f: "\<forall>k. k \<notin> (\<lambda>i. toString i @ ''-Controller'') ` {5 + 1 .. 5 + 3} \<longrightarrow>
          controllerStore s' k = controllerStore emptyState k"
    by blast
  have c6: "tokenStore s' (toString 6) = Some (newToken env0 6 False)" using c by simp
  have c8: "tokenStore s' (toString 8) = Some (newToken env0 8 False)" using c by simp
  have c7: "controllerStore s' (toString 7 @ ''-Controller'') = Some (newController 7)"
    using c by simp
  have l8: "leverStore s' (toString 8 @ ''-'' @ toString 1) = Some (newLever 8 1)"
    using c by (simp add: env0_def)
  have "''5-Controller'' \<notin> (\<lambda>i. toString i @ ''-Controller'') ` {5 + 1 .. 5 + 3}"
  proof
    assume "''5-Controller'' \<in> (\<lambda>i. toString i @ ''-Controller'') ` {5 + 1 .. 5 + 3}"
    then obtain i where i: "toString 5 @ ''-Controller'' = toString i @ ''-Controller''" "6 \<le> i"
      by (auto simp add: toString_samples)
    from i(1) have "toString 5 = toString i" by simp
    from toString_inj[OF this] i(2) show False by simp
  qed
  with f have f5: "controllerStore s' ''5-Controller'' = None" by (simp add: emptyState_def)
  have k: "toString 6 = ''6''" "toString 1 = ''1''" by code_simp+
  show ?thesis
    using run g m c6 c8 c7 l8 f5
    by (simp add: toString_samples k newToken_def newController_def newLever_def)
qed

end
